theory Spec2Isabelle
  imports Main "HOL-Library.Sublist"
begin

section \<open>Collaborators outside \<^verbatim>\<open>registry.py\<close>\<close>

text \<open>
  \<^verbatim>\<open>registry.py\<close> calls \<^verbatim>\<open>grammar.parse\<close> and reads three attributes of what it
  returns. The grammar module is not part of the sources at hand, so the parser is a
  parameter of the model and only the shape of its result is fixed here.
\<close>

text \<open>Modelled from the spec: the type declarations of \<^verbatim>\<open>grammar.BasicType\<close> and
  \<^verbatim>\<open>grammar.TupleType\<close> are missing; a basic type has a base name, an optional
  numeric sub-qualifier and an optional array-dimension list, a tuple type has an
  ordered sequence of component types.\<close>

datatype sub_qualifier = SubInt nat | SubPair nat nat

datatype abi_type =
    BasicType string "sub_qualifier option" "nat list list option"
  | TupleType "abi_type list"

text \<open>
  The two functions the module takes from outside: \<^verbatim>\<open>grammar.parse\<close>, where \<open>None\<close>
  stands for a raised \<^verbatim>\<open>ParseError\<close>, and Python's builtin \<^verbatim>\<open>repr\<close> on \<^verbatim>\<open>str\<close>.
\<close>

record externals =
  parse :: "string \<Rightarrow> abi_type option"
  repr :: "string \<Rightarrow> string"

datatype error =
    ValueError string
  | KeyError string
  | TypeError string
  | ParseError string
  | CoderError string

section \<open>Predicates\<close>

text \<open>
  A lookup key is a Python callable. What \<^verbatim>\<open>registry.py\<close> does with one: call it, print
  it with \<^verbatim>\<open>repr\<close>, compare it with \<^verbatim>\<open>==\<close> (dictionary keys) and with \<^verbatim>\<open>is\<close>
  (\<^verbatim>\<open>_label_for_predicate\<close>). An object is therefore an address together with its
  contents: instances of the two \<^verbatim>\<open>Predicate\<close> subclasses, and any other callable, which
  carries its \<^verbatim>\<open>repr\<close> text and its behaviour.
\<close>

datatype predicate_body =
    Equals string
  | BaseEquals string "bool option"
  | PyFunction string "string \<Rightarrow> bool"

datatype predicate = Predicate nat predicate_body

fun address :: "predicate \<Rightarrow> nat" where
  "address (Predicate a b) = a"

text \<open>\<^verbatim>\<open>x is y\<close>: the same object.\<close>

definition py_is :: "predicate \<Rightarrow> predicate \<Rightarrow> bool" where
  "py_is p q = (address p = address q)"

text \<open>
  \<^verbatim>\<open>x == y\<close>: \<^verbatim>\<open>Predicate.__eq__\<close> compares the class and the tuple of slots; every
  other callable has Python's default equality, which is identity.
\<close>

fun py_eq :: "predicate \<Rightarrow> predicate \<Rightarrow> bool" where
  "py_eq (Predicate a (Equals v)) (Predicate b (Equals w)) = (v = w)"
| "py_eq (Predicate a (BaseEquals x s)) (Predicate b (BaseEquals y t)) = (x = y \<and> s = t)"
| "py_eq (Predicate a (PyFunction r f)) (Predicate b (PyFunction r' f')) = (a = b)"
| "py_eq p q = False"

text \<open>\<^verbatim>\<open>BaseEquals.__call__\<close>, branch by branch.\<close>

definition BaseEquals_call :: "externals \<Rightarrow> string \<Rightarrow> bool option \<Rightarrow> string \<Rightarrow> bool" where
  "BaseEquals_call ext b with_sub type_str =
     (case parse ext type_str of
        None \<Rightarrow> False
      | Some (BasicType abi_base abi_sub abi_arrlist) \<Rightarrow>
          if abi_arrlist \<noteq> None then False
          else if with_sub \<noteq> None \<and> the with_sub \<and> abi_sub = None then False
          else if with_sub \<noteq> None \<and> \<not> the with_sub \<and> abi_sub \<noteq> None then False
          else abi_base = b
      | Some (TupleType cs) \<Rightarrow> False)"

text \<open>\<^verbatim>\<open>predicate(type_str)\<close>.\<close>

fun call :: "externals \<Rightarrow> predicate \<Rightarrow> string \<Rightarrow> bool" where
  "call ext (Predicate a (Equals v)) other = (v = other)"
| "call ext (Predicate a (BaseEquals b with_sub)) type_str = BaseEquals_call ext b with_sub type_str"
| "call ext (Predicate a (PyFunction r f)) type_str = f type_str"

text \<open>\<^verbatim>\<open>__str__\<close> of the two subclasses and \<^verbatim>\<open>Predicate.__repr__\<close>.\<close>

fun str_predicate :: "externals \<Rightarrow> predicate_body \<Rightarrow> string" where
  "str_predicate ext (Equals v) = ''(== '' @ repr ext v @ '')''"
| "str_predicate ext (BaseEquals b with_sub) =
     ''(base == '' @ repr ext b @
       (case with_sub of
          None \<Rightarrow> ''''
        | Some ws \<Rightarrow> if ws then '' and sub is not None'' else '' and sub is None'') @ '')''"
| "str_predicate ext (PyFunction r f) = r"

fun repr_predicate :: "externals \<Rightarrow> predicate \<Rightarrow> string" where
  "repr_predicate ext (Predicate a (Equals v)) = ''<Equals '' @ str_predicate ext (Equals v) @ ''>''"
| "repr_predicate ext (Predicate a (BaseEquals b ws)) =
     ''<BaseEquals '' @ str_predicate ext (BaseEquals b ws) @ ''>''"
| "repr_predicate ext (Predicate a (PyFunction r f)) = r"

text \<open>\<^verbatim>\<open>sep.join(xs)\<close>.\<close>

fun join :: "string \<Rightarrow> string list \<Rightarrow> string" where
  "join sep [] = []"
| "join sep [x] = x"
| "join sep (x # y # ys) = x @ sep @ join sep (y # ys)"

section \<open>Dictionaries\<close>

text \<open>
  A Python \<^verbatim>\<open>dict\<close> keeps its items in insertion order and finds a key by \<^verbatim>\<open>==\<close>.
  It is a list of items, with the key equality as a parameter: \<^const>\<open>py_eq\<close> for
  \<^verbatim>\<open>_values\<close>, HOL's equality on strings for \<^verbatim>\<open>_labeled_predicates\<close>.
\<close>

definition dict_contains :: "('k \<Rightarrow> 'k \<Rightarrow> bool) \<Rightarrow> ('k \<times> 'v) list \<Rightarrow> 'k \<Rightarrow> bool" where
  "dict_contains eq d k = list_ex (\<lambda>item. eq (fst item) k) d"

fun dict_get :: "('k \<Rightarrow> 'k \<Rightarrow> bool) \<Rightarrow> ('k \<times> 'v) list \<Rightarrow> 'k \<Rightarrow> 'v option" where
  "dict_get eq [] k = None"
| "dict_get eq (item # d) k = (if eq (fst item) k then Some (snd item) else dict_get eq d k)"

text \<open>\<^verbatim>\<open>d[k] = v\<close>: an existing key keeps its place and its key object.\<close>

definition dict_set :: "('k \<Rightarrow> 'k \<Rightarrow> bool) \<Rightarrow> ('k \<times> 'v) list \<Rightarrow> 'k \<Rightarrow> 'v \<Rightarrow> ('k \<times> 'v) list" where
  "dict_set eq d k v =
     (if dict_contains eq d k
      then map (\<lambda>item. if eq (fst item) k then (fst item, v) else item) d
      else d @ [(k, v)])"

text \<open>\<^verbatim>\<open>del d[k]\<close> for a key that is present; the callers raise \<^verbatim>\<open>KeyError\<close> otherwise.\<close>

definition dict_del :: "('k \<Rightarrow> 'k \<Rightarrow> bool) \<Rightarrow> ('k \<times> 'v) list \<Rightarrow> 'k \<Rightarrow> ('k \<times> 'v) list" where
  "dict_del eq d k = filter (\<lambda>item. \<not> eq (fst item) k) d"

section \<open>\<^verbatim>\<open>PredicateMapping\<close>\<close>

record 'v PredicateMapping =
  pm_name :: string
  pm_values :: "(predicate \<times> 'v) list"
  pm_labeled_predicates :: "(string \<times> predicate) list"

text \<open>
  Every method returns what it raised or returned together with the mapping as the call
  left it, so that a mutation made before a \<^verbatim>\<open>raise\<close> stays visible.
\<close>

definition add ::
  "externals \<Rightarrow> 'v PredicateMapping \<Rightarrow> predicate \<Rightarrow> 'v \<Rightarrow> string option
     \<Rightarrow> (error + unit) \<times> 'v PredicateMapping" where
  "add ext m p val label =
     (if dict_contains py_eq (pm_values m) p then
        (Inl (ValueError (''Matcher '' @ repr_predicate ext p @ '' already exists in '' @ pm_name m)), m)
      else
        (case label of
           None \<Rightarrow> (Inr (), m\<lparr>pm_values := dict_set py_eq (pm_values m) p val\<rparr>)
         | Some l \<Rightarrow>
             if dict_contains (=) (pm_labeled_predicates m) l then
               (Inl (ValueError (''Matcher '' @ repr_predicate ext p @ '' with label '' @ [CHR 0x27] @ l
                       @ [CHR 0x27] @ '' already exists in '' @ pm_name m)), m)
             else
               (let m1 = m\<lparr>pm_labeled_predicates := dict_set (=) (pm_labeled_predicates m) l p\<rparr>
                in (Inr (), m1\<lparr>pm_values := dict_set py_eq (pm_values m1) p val\<rparr>))))"

definition no_match_message :: "string \<Rightarrow> string \<Rightarrow> string" where
  "no_match_message type_str nm =
     ''No matching entries for '' @ [CHR 0x27] @ type_str @ [CHR 0x27] @ '' in '' @ nm"

definition multiple_match_message :: "externals \<Rightarrow> string \<Rightarrow> string \<Rightarrow> predicate list \<Rightarrow> string" where
  "multiple_match_message ext type_str nm predicates =
     ''Multiple matching entries for '' @ [CHR 0x27] @ type_str @ [CHR 0x27] @ '' in '' @ nm
       @ '': '' @ join '', '' (map (repr_predicate ext) predicates)"

definition find_pm :: "externals \<Rightarrow> 'v PredicateMapping \<Rightarrow> string \<Rightarrow> error + 'v" where
  "find_pm ext m type_str =
     (let results = filter (\<lambda>item. call ext (fst item) type_str) (pm_values m) in
      if length results = 0 then Inl (ValueError (no_match_message type_str (pm_name m)))
      else
        (let predicates = map fst results; vals = map snd results in
         if length results > 1 then
           Inl (ValueError (multiple_match_message ext type_str (pm_name m) predicates))
         else Inr (hd vals)))"

text \<open>
  \<^verbatim>\<open>_label_for_predicate\<close>: the first label whose predicate \<^emph>\<open>is\<close> the argument.
\<close>

fun label_scan :: "(string \<times> predicate) list \<Rightarrow> predicate \<Rightarrow> string option" where
  "label_scan [] p = None"
| "label_scan (item # items) p = (if py_is (snd item) p then Some (fst item) else label_scan items p)"

definition label_for_predicate :: "externals \<Rightarrow> 'v PredicateMapping \<Rightarrow> predicate \<Rightarrow> error + string" where
  "label_for_predicate ext m p =
     (case label_scan (pm_labeled_predicates m) p of
        Some key \<Rightarrow> Inr key
      | None \<Rightarrow> Inl (ValueError (''Matcher '' @ repr_predicate ext p
                   @ '' not referred to by any label in '' @ pm_name m)))"

fun is_ValueError :: "error \<Rightarrow> bool" where
  "is_ValueError (ValueError msg) = True"
| "is_ValueError e = False"

definition remove_by_equality ::
  "externals \<Rightarrow> 'v PredicateMapping \<Rightarrow> predicate \<Rightarrow> (error + unit) \<times> 'v PredicateMapping" where
  "remove_by_equality ext m p =
     (if \<not> dict_contains py_eq (pm_values m) p then
        (Inl (KeyError (''Matcher '' @ repr_predicate ext p @ '' not found in '' @ pm_name m)), m)
      else
        (let m1 = m\<lparr>pm_values := dict_del py_eq (pm_values m) p\<rparr> in
         case label_for_predicate ext m1 p of
           Inl e \<Rightarrow> if is_ValueError e then (Inr (), m1) else (Inl e, m1)
         | Inr label \<Rightarrow>
             (Inr (), m1\<lparr>pm_labeled_predicates := dict_del (=) (pm_labeled_predicates m1) label\<rparr>)))"

text \<open>
  \<^verbatim>\<open>remove_by_label\<close>: the second \<^verbatim>\<open>del\<close> is not guarded; when it fails Python raises
  \<^verbatim>\<open>KeyError(predicate)\<close>, which prints as the predicate's \<^verbatim>\<open>repr\<close>.
\<close>

definition remove_by_label ::
  "externals \<Rightarrow> 'v PredicateMapping \<Rightarrow> string \<Rightarrow> (error + unit) \<times> 'v PredicateMapping" where
  "remove_by_label ext m label =
     (case dict_get (=) (pm_labeled_predicates m) label of
        None \<Rightarrow>
          (Inl (KeyError (''Label '' @ [CHR 0x27] @ label @ [CHR 0x27] @ '' not found in '' @ pm_name m)), m)
      | Some p \<Rightarrow>
          (let m1 = m\<lparr>pm_labeled_predicates := dict_del (=) (pm_labeled_predicates m) label\<rparr> in
           if dict_contains py_eq (pm_values m1) p
           then (Inr (), m1\<lparr>pm_values := dict_del py_eq (pm_values m1) p\<rparr>)
           else (Inl (KeyError (repr_predicate ext p)), m1)))"

section \<open>\<^verbatim>\<open>ABIRegistry\<close>\<close>

text \<open>
  A registered coder is a Python object. \<^verbatim>\<open>_get_coder\<close> asks one question of it:
  whether it is a class derived from \<^verbatim>\<open>BaseCoder\<close>. The number is the object's address,
  which is what object identity compares.
\<close>

datatype coder = CoderCallable nat | CoderClass nat

text \<open>What may be passed as \<^verbatim>\<open>lookup\<close> or \<^verbatim>\<open>lookup_or_label\<close>: a callable, a
  \<^verbatim>\<open>str\<close>, or something else, of which only the \<^verbatim>\<open>repr\<close> is used.\<close>

datatype lookup = Callable predicate | Str string | NotLookup string

text \<open>The calls the registry makes to its collaborators, in the order it makes them.\<close>

datatype collaborator_call =
    PredicateCalled predicate string
  | GrammarParse string
  | FromTypeStr coder string

text \<open>
  The registry owns the two mappings. The two \<^verbatim>\<open>functools.lru_cache(maxsize=None)\<close>
  wrappers each own a dictionary from the argument to the value returned; \<open>next_address\<close>
  is where the next object is allocated (\<^verbatim>\<open>Equals(lookup)\<close> creates one), and \<open>calls\<close>
  is the record of collaborator calls made so far.
\<close>

record ABIRegistry =
  encoders :: "coder PredicateMapping"
  decoders :: "coder PredicateMapping"
  encoder_cache :: "string \<rightharpoonup> coder"
  decoder_cache :: "string \<rightharpoonup> coder"
  next_address :: nat
  calls :: "collaborator_call list"

text \<open>
  \<^verbatim>\<open>coder.from_type_str(type_str, self)\<close> belongs to the coder classes, which are not
  in \<^verbatim>\<open>registry.py\<close>. It receives the registry itself, so it is a parameter that may
  read and change the whole registry state, and may raise.
\<close>

type_synonym factory = "coder \<Rightarrow> string \<Rightarrow> ABIRegistry \<Rightarrow> (error + coder) \<times> ABIRegistry"

definition ABIRegistry_init :: ABIRegistry where
  "ABIRegistry_init =
     \<lparr>encoders = \<lparr>pm_name = ''encoder registry'', pm_values = [], pm_labeled_predicates = []\<rparr>,
      decoders = \<lparr>pm_name = ''decoder registry'', pm_values = [], pm_labeled_predicates = []\<rparr>,
      encoder_cache = Map.empty, decoder_cache = Map.empty, next_address = 0, calls = []\<rparr>"

text \<open>The decorators: clear the cache, then run the method.\<close>

definition clear_encoder_cache :: "(ABIRegistry \<Rightarrow> 'r \<times> ABIRegistry) \<Rightarrow> ABIRegistry \<Rightarrow> 'r \<times> ABIRegistry" where
  "clear_encoder_cache old_method self = old_method (self\<lparr>encoder_cache := Map.empty\<rparr>)"

definition clear_decoder_cache :: "(ABIRegistry \<Rightarrow> 'r \<times> ABIRegistry) \<Rightarrow> ABIRegistry \<Rightarrow> 'r \<times> ABIRegistry" where
  "clear_decoder_cache old_method self = old_method (self\<lparr>decoder_cache := Map.empty\<rparr>)"

text \<open>\<^verbatim>\<open>_register_coder\<close>; \<open>fresh\<close> is the address of the \<^verbatim>\<open>Equals\<close> object it creates.\<close>

definition register_coder ::
  "externals \<Rightarrow> nat \<Rightarrow> 'v PredicateMapping \<Rightarrow> lookup \<Rightarrow> 'v \<Rightarrow> string option
     \<Rightarrow> (error + unit) \<times> 'v PredicateMapping" where
  "register_coder ext fresh mapping lkp cdr label =
     (case lkp of
        Callable p \<Rightarrow> add ext mapping p cdr label
      | Str s \<Rightarrow> add ext mapping (Predicate fresh (Equals s)) cdr (Some s)
      | NotLookup r \<Rightarrow>
          (Inl (TypeError (''Lookup must be a callable or a value of type `str`: got '' @ r)), mapping))"

definition unregister_coder ::
  "externals \<Rightarrow> 'v PredicateMapping \<Rightarrow> lookup \<Rightarrow> (error + unit) \<times> 'v PredicateMapping" where
  "unregister_coder ext mapping lookup_or_label =
     (case lookup_or_label of
        Callable p \<Rightarrow> remove_by_equality ext mapping p
      | Str s \<Rightarrow> remove_by_label ext mapping s
      | NotLookup r \<Rightarrow>
          (Inl (TypeError (''Lookup/label must be a callable or a value of type `str`: got '' @ r)), mapping))"

text \<open>Allocation: a \<^verbatim>\<open>str\<close> lookup makes \<^verbatim>\<open>_register_coder\<close> create one object.\<close>

fun allocated :: "lookup \<Rightarrow> nat \<Rightarrow> nat" where
  "allocated (Str s) n = Suc n"
| "allocated lkp n = n"

definition get_coder ::
  "externals \<Rightarrow> factory \<Rightarrow> ABIRegistry \<Rightarrow> coder PredicateMapping \<Rightarrow> string
     \<Rightarrow> (error + coder) \<times> ABIRegistry" where
  "get_coder ext from_type_str self mapping type_str =
     (let s1 = self\<lparr>calls := calls self @ map (\<lambda>item. PredicateCalled (fst item) type_str) (pm_values mapping)\<rparr>
      in case find_pm ext mapping type_str of
        Inl e \<Rightarrow>
          (case e of
             ValueError msg \<Rightarrow>
               if sublist ''No matching'' msg then
                 (let s2 = s1\<lparr>calls := calls s1 @ [GrammarParse type_str]\<rparr> in
                  case parse ext type_str of
                    None \<Rightarrow> (Inl (ParseError type_str), s2)
                  | Some t \<Rightarrow> (Inl e, s2))
               else (Inl e, s1)
           | _ \<Rightarrow> (Inl e, s1))
      | Inr cdr \<Rightarrow>
          (case cdr of
             CoderClass c \<Rightarrow> from_type_str cdr type_str (s1\<lparr>calls := calls s1 @ [FromTypeStr cdr type_str]\<rparr>)
           | CoderCallable c \<Rightarrow> (Inr cdr, s1)))"

definition register_encoder ::
  "externals \<Rightarrow> ABIRegistry \<Rightarrow> lookup \<Rightarrow> coder \<Rightarrow> string option \<Rightarrow> (error + unit) \<times> ABIRegistry" where
  "register_encoder ext self lkp encoder label =
     clear_encoder_cache
       (\<lambda>s. case register_coder ext (next_address s) (encoders s) lkp encoder label of
              (r, m) \<Rightarrow> (r, s\<lparr>encoders := m, next_address := allocated lkp (next_address s)\<rparr>))
       self"

definition unregister_encoder ::
  "externals \<Rightarrow> ABIRegistry \<Rightarrow> lookup \<Rightarrow> (error + unit) \<times> ABIRegistry" where
  "unregister_encoder ext self lookup_or_label =
     clear_encoder_cache
       (\<lambda>s. case unregister_coder ext (encoders s) lookup_or_label of
              (r, m) \<Rightarrow> (r, s\<lparr>encoders := m\<rparr>))
       self"

definition register_decoder ::
  "externals \<Rightarrow> ABIRegistry \<Rightarrow> lookup \<Rightarrow> coder \<Rightarrow> string option \<Rightarrow> (error + unit) \<times> ABIRegistry" where
  "register_decoder ext self lkp decoder label =
     clear_decoder_cache
       (\<lambda>s. case register_coder ext (next_address s) (decoders s) lkp decoder label of
              (r, m) \<Rightarrow> (r, s\<lparr>decoders := m, next_address := allocated lkp (next_address s)\<rparr>))
       self"

definition unregister_decoder ::
  "externals \<Rightarrow> ABIRegistry \<Rightarrow> lookup \<Rightarrow> (error + unit) \<times> ABIRegistry" where
  "unregister_decoder ext self lookup_or_label =
     clear_decoder_cache
       (\<lambda>s. case unregister_coder ext (decoders s) lookup_or_label of
              (r, m) \<Rightarrow> (r, s\<lparr>decoders := m\<rparr>))
       self"

text \<open>\<^verbatim>\<open>register\<close>: the second statement runs only when the first did not raise.\<close>

definition register ::
  "externals \<Rightarrow> ABIRegistry \<Rightarrow> lookup \<Rightarrow> coder \<Rightarrow> coder \<Rightarrow> string option \<Rightarrow> (error + unit) \<times> ABIRegistry" where
  "register ext self lkp encoder decoder label =
     (case register_encoder ext self lkp encoder label of
        (Inl e, s1) \<Rightarrow> (Inl e, s1)
      | (Inr u, s1) \<Rightarrow> register_decoder ext s1 lkp decoder label)"

definition unregister :: "externals \<Rightarrow> ABIRegistry \<Rightarrow> string \<Rightarrow> (error + unit) \<times> ABIRegistry" where
  "unregister ext self label =
     (case unregister_encoder ext self (Str label) of
        (Inl e, s1) \<Rightarrow> (Inl e, s1)
      | (Inr u, s1) \<Rightarrow> unregister_decoder ext s1 (Str label))"

text \<open>
  \<^verbatim>\<open>functools.lru_cache(maxsize=None)\<close>: return the stored value when the argument is a
  key of the cache; otherwise run the method and, when it returned, store what it
  returned in the cache as the method left it. A raised exception stores nothing.
\<close>

definition get_encoder ::
  "externals \<Rightarrow> factory \<Rightarrow> ABIRegistry \<Rightarrow> string \<Rightarrow> (error + coder) \<times> ABIRegistry" where
  "get_encoder ext from_type_str self type_str =
     (case encoder_cache self type_str of
        Some v \<Rightarrow> (Inr v, self)
      | None \<Rightarrow>
          (case get_coder ext from_type_str self (encoders self) type_str of
             (Inl e, s1) \<Rightarrow> (Inl e, s1)
           | (Inr v, s1) \<Rightarrow> (Inr v, s1\<lparr>encoder_cache := (encoder_cache s1)(type_str \<mapsto> v)\<rparr>)))"

definition get_decoder ::
  "externals \<Rightarrow> factory \<Rightarrow> ABIRegistry \<Rightarrow> string \<Rightarrow> (error + coder) \<times> ABIRegistry" where
  "get_decoder ext from_type_str self type_str =
     (case decoder_cache self type_str of
        Some v \<Rightarrow> (Inr v, self)
      | None \<Rightarrow>
          (case get_coder ext from_type_str self (decoders self) type_str of
             (Inl e, s1) \<Rightarrow> (Inl e, s1)
           | (Inr v, s1) \<Rightarrow> (Inr v, s1\<lparr>decoder_cache := (decoder_cache s1)(type_str \<mapsto> v)\<rparr>)))"

section \<open>Notions used to state the properties\<close>

text \<open>The stored predicates that accept a type string, in insertion order.\<close>

definition matching :: "externals \<Rightarrow> 'v PredicateMapping \<Rightarrow> string \<Rightarrow> predicate list" where
  "matching ext m type_str = filter (\<lambda>p. call ext p type_str) (map fst (pm_values m))"

text \<open>A label was passed to \<^const>\<open>add\<close> and is already a key of the secondary index.\<close>

definition label_taken :: "'v PredicateMapping \<Rightarrow> string option \<Rightarrow> bool" where
  "label_taken m label =
     (case label of None \<Rightarrow> False | Some l \<Rightarrow> dict_contains (=) (pm_labeled_predicates m) l)"

text \<open>The secondary index with the binding of an optional label appended.\<close>

definition with_label ::
  "(string \<times> predicate) list \<Rightarrow> string option \<Rightarrow> predicate \<Rightarrow> (string \<times> predicate) list" where
  "with_label d label p = (case label of None \<Rightarrow> d | Some l \<Rightarrow> d @ [(l, p)])"

section \<open>Concrete collaborators and states for the examples\<close>

text \<open>Modelled from the spec: \<^verbatim>\<open>grammar.parse\<close> is missing; this table gives its result
  on the type strings the examples use (the structured types the spec describes for
  them) and rejects every other string.\<close>

definition sample_parse :: "string \<Rightarrow> abi_type option" where
  "sample_parse s =
     (if s = ''uint256'' then Some (BasicType ''uint'' (Some (SubInt 256)) None)
      else if s = ''bytes32'' then Some (BasicType ''bytes'' (Some (SubInt 32)) None)
      else if s = ''bytes'' then Some (BasicType ''bytes'' None None)
      else if s = ''bool'' then Some (BasicType ''bool'' None None)
      else if s = ''address[2]'' then Some (BasicType ''address'' None (Some [[2]]))
      else if s = ''(uint256,bool)'' then
        Some (TupleType [BasicType ''uint'' (Some (SubInt 256)) None, BasicType ''bool'' None None])
      else None)"

text \<open>Python's \<^verbatim>\<open>repr\<close> of a \<^verbatim>\<open>str\<close> without quotes, backslashes or control
  characters: the text between single quotes.\<close>

definition sample_repr :: "string \<Rightarrow> string" where
  "sample_repr s = [CHR 0x27] @ s @ [CHR 0x27]"

definition sample_ext :: externals where
  "sample_ext = \<lparr>parse = sample_parse, repr = sample_repr\<rparr>"

definition sample_mapping :: "coder PredicateMapping" where
  "sample_mapping =
     \<lparr>pm_name = ''encoder registry'',
      pm_values =
        [(Predicate 1 (BaseEquals ''uint'' None), CoderClass 10),
         (Predicate 2 (Equals ''uint256''), CoderCallable 11),
         (Predicate 3 (BaseEquals ''bool'' None), CoderCallable 12),
         (Predicate 5 (BaseEquals ''bytes'' (Some True)), CoderClass 14)],
      pm_labeled_predicates =
        [(''uint'', Predicate 1 (BaseEquals ''uint'' None)),
         (''uint256'', Predicate 2 (Equals ''uint256'')),
         (''bytes<M>'', Predicate 5 (BaseEquals ''bytes'' (Some True)))]\<rparr>"

definition sample_decoders :: "coder PredicateMapping" where
  "sample_decoders =
     \<lparr>pm_name = ''decoder registry'',
      pm_values =
        [(Predicate 4 (BaseEquals ''uint'' None), CoderClass 20),
         (Predicate 6 (BaseEquals ''address'' None), CoderCallable 21)],
      pm_labeled_predicates =
        [(''uint'', Predicate 4 (BaseEquals ''uint'' None)),
         (''address'', Predicate 6 (BaseEquals ''address'' None))]\<rparr>"

definition sample_registry :: ABIRegistry where
  "sample_registry =
     \<lparr>encoders = sample_mapping, decoders = sample_decoders,
      encoder_cache = Map.empty, decoder_cache = Map.empty,
      next_address = 100, calls = []\<rparr>"

text \<open>Modelled from the spec: \<^verbatim>\<open>from_type_str\<close> of the coder classes is missing; this
  one builds a coder instance, a new object, from the type string without any nested
  lookup in the registry.\<close>

definition sample_from_type_str :: factory where
  "sample_from_type_str cdr type_str self =
     (Inr (CoderCallable (next_address self)), self\<lparr>next_address := Suc (next_address self)\<rparr>)"

text \<open>The sample registry after \<^verbatim>\<open>get_encoder('bytes32')\<close>.\<close>

definition sample_cached :: ABIRegistry where
  "sample_cached = snd (get_encoder sample_ext sample_from_type_str sample_registry ''bytes32'')"

text \<open>The same registry after a registration that raises: an equal \<^verbatim>\<open>BaseEquals('uint')\<close>
  predicate is already registered on the encoder side.\<close>

definition sample_after_failed_registration :: ABIRegistry where
  "sample_after_failed_registration =
     snd (register_encoder sample_ext sample_cached
            (Callable (Predicate 50 (BaseEquals ''uint'' None))) (CoderCallable 60) None)"

text \<open>A registry whose encoder side holds two callables that both accept every string.\<close>

definition sample_overlapping :: ABIRegistry where
  "sample_overlapping =
     ABIRegistry_init
       \<lparr>encoders :=
          \<lparr>pm_name = ''encoder registry'',
           pm_values =
             [(Predicate 1 (PyFunction ''<function accept_any at 0x1>'' (\<lambda>s. True)), CoderCallable 10),
              (Predicate 2 (PyFunction ''<function fallback at 0x2>'' (\<lambda>s. True)), CoderCallable 11)],
           pm_labeled_predicates = []\<rparr>,
        next_address := 100\<rparr>"

section \<open>Verified properties\<close>

subsection \<open>\<^verbatim>\<open>PredicateMapping.find\<close>\<close>

lemma map_fst_filter: "map fst (filter (\<lambda>item. P (fst item)) xs) = filter P (map fst xs)"
  by (induction xs) auto

lemma sublist_join: "x \<in> set xs \<Longrightarrow> sublist x (join sep xs)"
proof (induction sep xs rule: join.induct)
  case (3 sep x' y ys)
  show ?case
  proof (cases "x = x'")
    case True
    then show ?thesis by simp
  next
    case False
    with 3 have "sublist x (join sep (y # ys))" by simp
    then show ?thesis by (simp add: sublist_append)
  qed
qed simp_all

lemma sublist_append_right: "sublist x zs \<Longrightarrow> sublist x (ys @ zs)"
  by (simp add: sublist_append)

lemma message_names_predicate:
  assumes "p \<in> set ps"
  shows "sublist (repr_predicate ext p) (multiple_match_message ext T nm ps)"
proof -
  from assms have "repr_predicate ext p \<in> set (map (repr_predicate ext) ps)" by simp
  then have "sublist (repr_predicate ext p) (join '', '' (map (repr_predicate ext) ps))"
    by (rule sublist_join)
  then show ?thesis
    unfolding multiple_match_message_def by (intro sublist_append_right)
qed

lemma messages_differ: "no_match_message t n \<noteq> multiple_match_message ext t' n' ps"
  by (simp add: no_match_message_def multiple_match_message_def)

lemma find_pm_none:
  "matching ext m T = [] \<Longrightarrow> find_pm ext m T = Inl (ValueError (no_match_message T (pm_name m)))"
  by (simp add: matching_def find_pm_def map_fst_filter[symmetric])

lemma find_pm_one:
  "matching ext m T = [p] \<Longrightarrow>
     \<exists>v. filter (\<lambda>item. call ext (fst item) T) (pm_values m) = [(p, v)] \<and> find_pm ext m T = Inr v"
  by (auto simp add: matching_def find_pm_def Let_def map_fst_filter[symmetric] map_eq_Cons_conv)

lemma find_pm_many:
  "2 \<le> length (matching ext m T) \<Longrightarrow>
     find_pm ext m T = Inl (ValueError (multiple_match_message ext T (pm_name m) (matching ext m T)))"
  by (auto simp add: matching_def find_pm_def Let_def map_fst_filter[symmetric])

text \<open>
  C1. For every mapping and type string: \<^const>\<open>find_pm\<close> raises the no-match error exactly
  when no stored predicate accepts the string; it raises the multiple-match error exactly
  when two or more do, and the message of that error contains the \<^verbatim>\<open>repr\<close> of every
  accepting predicate; when exactly one stored predicate accepts the string, the value
  stored with that predicate is returned.
\<close>

theorem find_pm_cases:
  "(find_pm ext m T = Inl (ValueError (no_match_message T (pm_name m)))
      \<longleftrightarrow> length (matching ext m T) = 0) \<and>
   (find_pm ext m T = Inl (ValueError (multiple_match_message ext T (pm_name m) (matching ext m T)))
      \<longleftrightarrow> 2 \<le> length (matching ext m T)) \<and>
   (\<forall>p \<in> set (matching ext m T).
      sublist (repr_predicate ext p) (multiple_match_message ext T (pm_name m) (matching ext m T))) \<and>
   (\<forall>p. matching ext m T = [p] \<longrightarrow>
      (\<exists>v. filter (\<lambda>item. call ext (fst item) T) (pm_values m) = [(p, v)] \<and> find_pm ext m T = Inr v))"
proof -
  consider (none) "matching ext m T = []" | (one) p where "matching ext m T = [p]"
    | (many) "2 \<le> length (matching ext m T)"
    by (cases "matching ext m T" rule: list.exhaust; simp)
       (metis Suc_le_mono le0 length_Cons list.exhaust)
  then have iffs: "(find_pm ext m T = Inl (ValueError (no_match_message T (pm_name m)))
      \<longleftrightarrow> length (matching ext m T) = 0) \<and>
   (find_pm ext m T = Inl (ValueError (multiple_match_message ext T (pm_name m) (matching ext m T)))
      \<longleftrightarrow> 2 \<le> length (matching ext m T))"
  proof cases
    case none
    then show ?thesis using find_pm_none[OF none] messages_differ by auto
  next
    case one
    then show ?thesis using find_pm_one[OF one] by auto
  next
    case many
    then show ?thesis
      using find_pm_many[OF many] messages_differ[of T "pm_name m" ext T "pm_name m" "matching ext m T"]
      by auto
  qed
  have names: "\<forall>p \<in> set (matching ext m T).
      sublist (repr_predicate ext p) (multiple_match_message ext T (pm_name m) (matching ext m T))"
    by (simp add: message_names_predicate)
  show ?thesis using iffs names find_pm_one by blast
qed


theorem find_pm_cases_witness:
  "find_pm sample_ext sample_mapping ''bytes''
     = Inl (ValueError (no_match_message ''bytes'' ''encoder registry'')) \<and>
   find_pm sample_ext sample_mapping ''bool'' = Inr (CoderCallable 12) \<and>
   find_pm sample_ext sample_mapping ''uint256''
     = Inl (ValueError (multiple_match_message sample_ext ''uint256'' ''encoder registry''
              [Predicate 1 (BaseEquals ''uint'' None), Predicate 2 (Equals ''uint256'')])) \<and>
   sublist (repr_predicate sample_ext (Predicate 2 (Equals ''uint256'')))
     (multiple_match_message sample_ext ''uint256'' ''encoder registry''
        [Predicate 1 (BaseEquals ''uint'' None), Predicate 2 (Equals ''uint256'')])"
proof -
  have nm: "pm_name sample_mapping = ''encoder registry''"
    by (simp add: sample_mapping_def)
  have m0: "matching sample_ext sample_mapping ''bytes'' = []"
    by (simp add: matching_def sample_mapping_def BaseEquals_call_def sample_ext_def sample_parse_def)
  have m1: "matching sample_ext sample_mapping ''bool'' = [Predicate 3 (BaseEquals ''bool'' None)]"
    by (simp add: matching_def sample_mapping_def BaseEquals_call_def sample_ext_def sample_parse_def)
  have f1: "filter (\<lambda>item. call sample_ext (fst item) ''bool'') (pm_values sample_mapping)
              = [(Predicate 3 (BaseEquals ''bool'' None), CoderCallable 12)]"
    by (simp add: sample_mapping_def BaseEquals_call_def sample_ext_def sample_parse_def)
  have m2: "matching sample_ext sample_mapping ''uint256''
              = [Predicate 1 (BaseEquals ''uint'' None), Predicate 2 (Equals ''uint256'')]"
    by (simp add: matching_def sample_mapping_def BaseEquals_call_def sample_ext_def sample_parse_def)
  from find_pm_cases[of sample_ext sample_mapping "''bytes''"] m0 nm
  have a: "find_pm sample_ext sample_mapping ''bytes''
     = Inl (ValueError (no_match_message ''bytes'' ''encoder registry''))" by simp
  from find_pm_cases[of sample_ext sample_mapping "''bool''"] m1 f1
  have b: "find_pm sample_ext sample_mapping ''bool'' = Inr (CoderCallable 12)" by auto
  from find_pm_cases[of sample_ext sample_mapping "''uint256''"] m2 nm
  have c: "find_pm sample_ext sample_mapping ''uint256''
     = Inl (ValueError (multiple_match_message sample_ext ''uint256'' ''encoder registry''
              [Predicate 1 (BaseEquals ''uint'' None), Predicate 2 (Equals ''uint256'')])) \<and>
   sublist (repr_predicate sample_ext (Predicate 2 (Equals ''uint256'')))
     (multiple_match_message sample_ext ''uint256'' ''encoder registry''
        [Predicate 1 (BaseEquals ''uint'' None), Predicate 2 (Equals ''uint256'')])" by simp
  from a b c show ?thesis by blast
qed

subsection \<open>\<^verbatim>\<open>PredicateMapping.add\<close>\<close>

lemma dict_set_absent: "\<not> dict_contains eq d k \<Longrightarrow> dict_set eq d k v = d @ [(k, v)]"
  by (simp add: dict_set_def)

lemma add_duplicate_predicate:
  "dict_contains py_eq (pm_values m) p \<Longrightarrow> \<exists>e. add ext m p val label = (Inl e, m)"
  by (simp add: add_def)

lemma add_duplicate_label:
  "\<not> dict_contains py_eq (pm_values m) p \<Longrightarrow> label_taken m label
     \<Longrightarrow> \<exists>e. add ext m p val label = (Inl e, m)"
  by (cases label) (simp_all add: add_def label_taken_def)

lemma add_success:
  "\<not> dict_contains py_eq (pm_values m) p \<Longrightarrow> \<not> label_taken m label \<Longrightarrow>
     add ext m p val label =
       (Inr (), m\<lparr>pm_values := pm_values m @ [(p, val)],
                  pm_labeled_predicates := with_label (pm_labeled_predicates m) label p\<rparr>)"
  by (cases label) (simp_all add: add_def label_taken_def with_label_def Let_def dict_set_absent)

text \<open>
  C8. For every mapping: when \<^const>\<open>add\<close> raises, the mapping it leaves is the mapping it
  was given, so neither index has changed; it raises exactly when an equal predicate is
  already a key of the primary index or the label passed is already a key of the
  secondary index; when it returns, the primary index has gained the entry for the
  predicate and the secondary index the entry for the label when one was passed, and
  nothing else has changed.
\<close>

theorem add_atomic:
  "(\<forall>e. fst (add ext m p val label) = Inl e \<longrightarrow> snd (add ext m p val label) = m) \<and>
   ((\<exists>e. fst (add ext m p val label) = Inl e) \<longleftrightarrow>
      dict_contains py_eq (pm_values m) p \<or> label_taken m label) \<and>
   (fst (add ext m p val label) = Inr () \<longrightarrow>
      snd (add ext m p val label) =
        m\<lparr>pm_values := pm_values m @ [(p, val)],
          pm_labeled_predicates := with_label (pm_labeled_predicates m) label p\<rparr>)"
proof -
  consider (dup) "dict_contains py_eq (pm_values m) p"
    | (lab) "\<not> dict_contains py_eq (pm_values m) p" "label_taken m label"
    | (ok) "\<not> dict_contains py_eq (pm_values m) p" "\<not> label_taken m label"
    by blast
  then show ?thesis
  proof cases
    case dup
    from add_duplicate_predicate[OF dup, of ext val label]
    obtain e where "add ext m p val label = (Inl e, m)" by blast
    with dup show ?thesis by simp
  next
    case lab
    from add_duplicate_label[OF lab, of ext val]
    obtain e where "add ext m p val label = (Inl e, m)" by blast
    with lab show ?thesis by simp
  next
    case ok
    from add_success[OF ok, of ext val] ok show ?thesis by simp
  qed
qed

theorem add_atomic_witness:
  "snd (add sample_ext sample_mapping (Predicate 50 (BaseEquals ''uint'' None)) (CoderCallable 60) (Some ''mine''))
     = sample_mapping \<and>
   snd (add sample_ext sample_mapping (Predicate 51 (BaseEquals ''address'' None)) (CoderCallable 60) (Some ''uint''))
     = sample_mapping \<and>
   snd (add sample_ext sample_mapping (Predicate 51 (BaseEquals ''address'' None)) (CoderCallable 60) (Some ''address''))
     = sample_mapping
         \<lparr>pm_values := pm_values sample_mapping @ [(Predicate 51 (BaseEquals ''address'' None), CoderCallable 60)],
          pm_labeled_predicates :=
            pm_labeled_predicates sample_mapping @ [(''address'', Predicate 51 (BaseEquals ''address'' None))]\<rparr>"
proof -
  let ?p1 = "Predicate 50 (BaseEquals ''uint'' None)"
  let ?p2 = "Predicate 51 (BaseEquals ''address'' None)"
  have d1: "dict_contains py_eq (pm_values sample_mapping) ?p1"
    by (simp add: dict_contains_def sample_mapping_def)
  have d2: "\<not> dict_contains py_eq (pm_values sample_mapping) ?p2"
    by (simp add: dict_contains_def sample_mapping_def)
  have l2: "label_taken sample_mapping (Some ''uint'')"
    by (simp add: label_taken_def dict_contains_def sample_mapping_def)
  have l3: "\<not> label_taken sample_mapping (Some ''address'')"
    by (simp add: label_taken_def dict_contains_def sample_mapping_def)
  note A = add_atomic[of sample_ext sample_mapping ?p1 "CoderCallable 60" "Some ''mine''"]
  note B = add_atomic[of sample_ext sample_mapping ?p2 "CoderCallable 60" "Some ''uint''"]
  note C = add_atomic[of sample_ext sample_mapping ?p2 "CoderCallable 60" "Some ''address''"]
  have "\<exists>e. fst (add sample_ext sample_mapping ?p1 (CoderCallable 60) (Some ''mine'')) = Inl e"
    by (rule iffD2[OF A[THEN conjunct2, THEN conjunct1]]) (rule disjI1, rule d1)
  then obtain e1 where "fst (add sample_ext sample_mapping ?p1 (CoderCallable 60) (Some ''mine'')) = Inl e1" ..
  then have a: "snd (add sample_ext sample_mapping ?p1 (CoderCallable 60) (Some ''mine'')) = sample_mapping"
    by (rule A[THEN conjunct1, THEN spec, THEN mp])
  have "\<exists>e. fst (add sample_ext sample_mapping ?p2 (CoderCallable 60) (Some ''uint'')) = Inl e"
    by (rule iffD2[OF B[THEN conjunct2, THEN conjunct1]]) (rule disjI2, rule l2)
  then obtain e2 where "fst (add sample_ext sample_mapping ?p2 (CoderCallable 60) (Some ''uint'')) = Inl e2" ..
  then have b: "snd (add sample_ext sample_mapping ?p2 (CoderCallable 60) (Some ''uint'')) = sample_mapping"
    by (rule B[THEN conjunct1, THEN spec, THEN mp])
  have "\<not> (\<exists>e. fst (add sample_ext sample_mapping ?p2 (CoderCallable 60) (Some ''address'')) = Inl e)"
    unfolding C[THEN conjunct2, THEN conjunct1] using d2 l3 by simp
  then have "fst (add sample_ext sample_mapping ?p2 (CoderCallable 60) (Some ''address'')) = Inr ()"
    by (cases "fst (add sample_ext sample_mapping ?p2 (CoderCallable 60) (Some ''address''))") simp_all
  then have c: "snd (add sample_ext sample_mapping ?p2 (CoderCallable 60) (Some ''address''))
     = sample_mapping
         \<lparr>pm_values := pm_values sample_mapping @ [(?p2, CoderCallable 60)],
          pm_labeled_predicates := with_label (pm_labeled_predicates sample_mapping) (Some ''address'') ?p2\<rparr>"
    by (rule C[THEN conjunct2, THEN conjunct2, THEN mp])
  have w: "with_label (pm_labeled_predicates sample_mapping) (Some ''address'') ?p2
             = pm_labeled_predicates sample_mapping @ [(''address'', ?p2)]"
    by (simp add: with_label_def)
  show ?thesis
    by (intro conjI) (rule a, rule b, rule c[unfolded w])
qed


subsection \<open>\<^verbatim>\<open>BaseEquals.__call__\<close>\<close>

text \<open>
  C9. For every type string: \<^verbatim>\<open>BaseEquals(base, with_sub)\<close> accepts it exactly when it
  parses, to a basic type without array dimensions, whose base is \<^verbatim>\<open>base\<close> and whose
  sub-qualifier is present when \<^verbatim>\<open>with_sub\<close> is true, absent when it is false, and
  either when it is \<^verbatim>\<open>None\<close>. Nothing is raised for a string that does not parse: the
  result is false.
\<close>

theorem BaseEquals_call_iff:
  "BaseEquals_call ext b with_sub T \<longleftrightarrow>
     (\<exists>sub. parse ext T = Some (BasicType b sub None) \<and>
        (case with_sub of
           None \<Rightarrow> True
         | Some required \<Rightarrow> (required \<longleftrightarrow> sub \<noteq> None)))"
proof (cases "parse ext T")
  case None
  then show ?thesis by (simp add: BaseEquals_call_def)
next
  case (Some t)
  show ?thesis
  proof (cases t)
    case (BasicType abi_base abi_sub abi_arrlist)
    with Some show ?thesis
      by (cases with_sub; cases abi_arrlist) (auto simp add: BaseEquals_call_def)
  next
    case (TupleType cs)
    with Some show ?thesis by (simp add: BaseEquals_call_def)
  qed
qed


theorem BaseEquals_call_iff_witness:
  "BaseEquals_call sample_ext ''bytes'' (Some True) ''bytes32'' \<and>
   \<not> BaseEquals_call sample_ext ''bytes'' (Some False) ''bytes32'' \<and>
   BaseEquals_call sample_ext ''bytes'' None ''bytes32'' \<and>
   BaseEquals_call sample_ext ''bytes'' (Some False) ''bytes'' \<and>
   \<not> BaseEquals_call sample_ext ''address'' None ''address[2]'' \<and>
   \<not> BaseEquals_call sample_ext ''uint'' None ''(uint256,bool)'' \<and>
   \<not> BaseEquals_call sample_ext ''uint'' None ''notatype''"
proof -
  have p: "parse sample_ext = sample_parse" by (simp add: sample_ext_def)
  have 1: "BaseEquals_call sample_ext ''bytes'' (Some True) ''bytes32''"
    unfolding BaseEquals_call_iff by (simp add: p sample_parse_def)
  have 2: "\<not> BaseEquals_call sample_ext ''bytes'' (Some False) ''bytes32''"
    unfolding BaseEquals_call_iff by (simp add: p sample_parse_def)
  have 3: "BaseEquals_call sample_ext ''bytes'' None ''bytes32''"
    unfolding BaseEquals_call_iff by (simp add: p sample_parse_def)
  have 4: "BaseEquals_call sample_ext ''bytes'' (Some False) ''bytes''"
    unfolding BaseEquals_call_iff by (simp add: p sample_parse_def)
  have 5: "\<not> BaseEquals_call sample_ext ''address'' None ''address[2]''"
    unfolding BaseEquals_call_iff by (simp add: p sample_parse_def)
  have 6: "\<not> BaseEquals_call sample_ext ''uint'' None ''(uint256,bool)''"
    unfolding BaseEquals_call_iff by (simp add: p sample_parse_def)
  have 7: "\<not> BaseEquals_call sample_ext ''uint'' None ''notatype''"
    unfolding BaseEquals_call_iff by (simp add: p sample_parse_def)
  show ?thesis by (intro conjI) (rule 1 2 3 4 5 6 7)+
qed

subsection \<open>Registration and removal in \<^verbatim>\<open>ABIRegistry\<close>\<close>

lemma add_returned:
  assumes "add ext m p val label = (Inr (), m1)"
  shows "\<not> dict_contains py_eq (pm_values m) p" and "\<not> label_taken m label"
    and "m1 = m\<lparr>pm_values := pm_values m @ [(p, val)],
                 pm_labeled_predicates := with_label (pm_labeled_predicates m) label p\<rparr>"
proof -
  show a: "\<not> dict_contains py_eq (pm_values m) p"
    using assms add_duplicate_predicate[of m p ext val label] by auto
  show b: "\<not> label_taken m label"
    using assms a add_duplicate_label[of m p label ext val] by auto
  show "m1 = m\<lparr>pm_values := pm_values m @ [(p, val)],
                 pm_labeled_predicates := with_label (pm_labeled_predicates m) label p\<rparr>"
    using assms add_success[OF a b, of ext val] by simp
qed

lemma dict_get_appended:
  "\<not> dict_contains eq d k \<Longrightarrow> eq k k \<Longrightarrow> dict_get eq (d @ [(k, v)]) k = Some v"
  by (induction d) (simp_all add: dict_contains_def)

lemma dict_del_appended:
  "\<not> dict_contains eq d k \<Longrightarrow> eq k k \<Longrightarrow> dict_del eq (d @ [(k, v)]) k = d"
  by (induction d) (simp_all add: dict_contains_def dict_del_def)

lemma dict_contains_appended: "eq k k \<Longrightarrow> dict_contains eq (d @ [(k, v)]) k"
  by (simp add: dict_contains_def)

lemma register_coder_str:
  "register_coder ext a m (Str S) cdr label = add ext m (Predicate a (Equals S)) cdr (Some S)"
  by (simp add: register_coder_def)

lemma register_coder_str_returned:
  assumes "register_coder ext a m (Str S) cdr label = (Inr (), m1)"
  shows "m1 = m\<lparr>pm_values := pm_values m @ [(Predicate a (Equals S), cdr)],
                 pm_labeled_predicates := pm_labeled_predicates m @ [(S, Predicate a (Equals S))]\<rparr>"
    and "remove_by_label ext m1 S = (Inr (), m)"
proof -
  let ?p = "Predicate a (Equals S)"
  from assms have ad: "add ext m ?p cdr (Some S) = (Inr (), m1)"
    by (simp add: register_coder_str)
  note r = add_returned[OF ad]
  from r(2) have nl: "\<not> dict_contains (=) (pm_labeled_predicates m) S"
    by (simp add: label_taken_def)
  show m1: "m1 = m\<lparr>pm_values := pm_values m @ [(?p, cdr)],
                 pm_labeled_predicates := pm_labeled_predicates m @ [(S, ?p)]\<rparr>"
    using r(3) by (simp add: with_label_def)
  have g: "dict_get (=) (pm_labeled_predicates m1) S = Some ?p"
    using m1 dict_get_appended[OF nl, of ?p] by simp
  have dl: "dict_del (=) (pm_labeled_predicates m1) S = pm_labeled_predicates m"
    using m1 dict_del_appended[OF nl, of ?p] by simp
  have c: "dict_contains py_eq (pm_values m1) ?p"
    using m1 dict_contains_appended[of py_eq ?p "pm_values m" cdr] by simp
  have dv: "dict_del py_eq (pm_values m1) ?p = pm_values m"
    using m1 dict_del_appended[OF r(1), of cdr] by simp
  show "remove_by_label ext m1 S = (Inr (), m)"
    using g dl c dv m1 by (simp add: remove_by_label_def Let_def)
qed

lemma register_encoder_eq:
  "register_encoder ext s lkp enc label =
     (fst (register_coder ext (next_address s) (encoders s) lkp enc label),
      s\<lparr>encoder_cache := Map.empty,
        encoders := snd (register_coder ext (next_address s) (encoders s) lkp enc label),
        next_address := allocated lkp (next_address s)\<rparr>)"
  by (simp add: register_encoder_def clear_encoder_cache_def split: prod.split)

lemma register_decoder_eq:
  "register_decoder ext s lkp dec label =
     (fst (register_coder ext (next_address s) (decoders s) lkp dec label),
      s\<lparr>decoder_cache := Map.empty,
        decoders := snd (register_coder ext (next_address s) (decoders s) lkp dec label),
        next_address := allocated lkp (next_address s)\<rparr>)"
  by (simp add: register_decoder_def clear_decoder_cache_def split: prod.split)

lemma unregister_encoder_eq:
  "unregister_encoder ext s lkp =
     (fst (unregister_coder ext (encoders s) lkp),
      s\<lparr>encoder_cache := Map.empty, encoders := snd (unregister_coder ext (encoders s) lkp)\<rparr>)"
  by (simp add: unregister_encoder_def clear_encoder_cache_def split: prod.split)

lemma unregister_decoder_eq:
  "unregister_decoder ext s lkp =
     (fst (unregister_coder ext (decoders s) lkp),
      s\<lparr>decoder_cache := Map.empty, decoders := snd (unregister_coder ext (decoders s) lkp)\<rparr>)"
  by (simp add: unregister_decoder_def clear_decoder_cache_def split: prod.split)

lemma unregister_coder_str: "unregister_coder ext m (Str S) = remove_by_label ext m S"
  by (simp add: unregister_coder_def)


lemma register_encoder_str_returned:
  assumes "fst (register_encoder ext s (Str S) enc label) = Inr ()"
  shows "encoders (snd (register_encoder ext s (Str S) enc label)) =
           (encoders s)\<lparr>pm_values := pm_values (encoders s) @ [(Predicate (next_address s) (Equals S), enc)],
             pm_labeled_predicates :=
               pm_labeled_predicates (encoders s) @ [(S, Predicate (next_address s) (Equals S))]\<rparr>"
    and "remove_by_label ext (encoders (snd (register_encoder ext s (Str S) enc label))) S
           = (Inr (), encoders s)"
proof -
  obtain r m1 where rc: "register_coder ext (next_address s) (encoders s) (Str S) enc label = (r, m1)"
    by (cases "register_coder ext (next_address s) (encoders s) (Str S) enc label")
  with assms have "r = Inr ()" by (simp add: register_encoder_eq)
  with rc have rc': "register_coder ext (next_address s) (encoders s) (Str S) enc label = (Inr (), m1)"
    by simp
  have e: "encoders (snd (register_encoder ext s (Str S) enc label)) = m1"
    using rc by (simp add: register_encoder_eq)
  show "encoders (snd (register_encoder ext s (Str S) enc label)) =
           (encoders s)\<lparr>pm_values := pm_values (encoders s) @ [(Predicate (next_address s) (Equals S), enc)],
             pm_labeled_predicates :=
               pm_labeled_predicates (encoders s) @ [(S, Predicate (next_address s) (Equals S))]\<rparr>"
    unfolding e by (rule register_coder_str_returned(1)[OF rc'])
  show "remove_by_label ext (encoders (snd (register_encoder ext s (Str S) enc label))) S
           = (Inr (), encoders s)"
    unfolding e by (rule register_coder_str_returned(2)[OF rc'])
qed

lemma register_decoder_str_returned:
  assumes "fst (register_decoder ext s (Str S) dec label) = Inr ()"
  shows "decoders (snd (register_decoder ext s (Str S) dec label)) =
           (decoders s)\<lparr>pm_values := pm_values (decoders s) @ [(Predicate (next_address s) (Equals S), dec)],
             pm_labeled_predicates :=
               pm_labeled_predicates (decoders s) @ [(S, Predicate (next_address s) (Equals S))]\<rparr>"
    and "remove_by_label ext (decoders (snd (register_decoder ext s (Str S) dec label))) S
           = (Inr (), decoders s)"
proof -
  obtain r m1 where rc: "register_coder ext (next_address s) (decoders s) (Str S) dec label = (r, m1)"
    by (cases "register_coder ext (next_address s) (decoders s) (Str S) dec label")
  with assms have "r = Inr ()" by (simp add: register_decoder_eq)
  with rc have rc': "register_coder ext (next_address s) (decoders s) (Str S) dec label = (Inr (), m1)"
    by simp
  have e: "decoders (snd (register_decoder ext s (Str S) dec label)) = m1"
    using rc by (simp add: register_decoder_eq)
  show "decoders (snd (register_decoder ext s (Str S) dec label)) =
           (decoders s)\<lparr>pm_values := pm_values (decoders s) @ [(Predicate (next_address s) (Equals S), dec)],
             pm_labeled_predicates :=
               pm_labeled_predicates (decoders s) @ [(S, Predicate (next_address s) (Equals S))]\<rparr>"
    unfolding e by (rule register_coder_str_returned(1)[OF rc'])
  show "remove_by_label ext (decoders (snd (register_decoder ext s (Str S) dec label))) S
           = (Inr (), decoders s)"
    unfolding e by (rule register_coder_str_returned(2)[OF rc'])
qed

text \<open>
  C10. For every string \<open>S\<close> and every value of the label argument, \<^verbatim>\<open>register_encoder\<close>
  and \<^verbatim>\<open>register_decoder\<close> called with the lookup \<open>S\<close> do exactly what they do with no
  label: the result and the registry they leave are the same. When the call returns, the
  label bound to the new \<^verbatim>\<open>Equals(S)\<close> object is \<open>S\<close> itself.
\<close>

theorem register_string_ignores_label:
  "register_encoder ext s (Str S) cdr label = register_encoder ext s (Str S) cdr None \<and>
   register_decoder ext s (Str S) cdr label = register_decoder ext s (Str S) cdr None \<and>
   (fst (register_encoder ext s (Str S) cdr label) = Inr () \<longrightarrow>
      pm_labeled_predicates (encoders (snd (register_encoder ext s (Str S) cdr label)))
        = pm_labeled_predicates (encoders s) @ [(S, Predicate (next_address s) (Equals S))]) \<and>
   (fst (register_decoder ext s (Str S) cdr label) = Inr () \<longrightarrow>
      pm_labeled_predicates (decoders (snd (register_decoder ext s (Str S) cdr label)))
        = pm_labeled_predicates (decoders s) @ [(S, Predicate (next_address s) (Equals S))])"
proof (intro conjI impI)
  show "register_encoder ext s (Str S) cdr label = register_encoder ext s (Str S) cdr None"
    by (simp add: register_encoder_eq register_coder_str)
  show "register_decoder ext s (Str S) cdr label = register_decoder ext s (Str S) cdr None"
    by (simp add: register_decoder_eq register_coder_str)
next
  assume "fst (register_encoder ext s (Str S) cdr label) = Inr ()"
  from register_encoder_str_returned(1)[OF this]
  show "pm_labeled_predicates (encoders (snd (register_encoder ext s (Str S) cdr label)))
        = pm_labeled_predicates (encoders s) @ [(S, Predicate (next_address s) (Equals S))]"
    by simp
next
  assume "fst (register_decoder ext s (Str S) cdr label) = Inr ()"
  from register_decoder_str_returned(1)[OF this]
  show "pm_labeled_predicates (decoders (snd (register_decoder ext s (Str S) cdr label)))
        = pm_labeled_predicates (decoders s) @ [(S, Predicate (next_address s) (Equals S))]"
    by simp
qed


lemma register_encoder_frame:
  "decoders (snd (register_encoder ext s lkp enc label)) = decoders s"
  "decoder_cache (snd (register_encoder ext s lkp enc label)) = decoder_cache s"
  "encoder_cache (snd (register_encoder ext s lkp enc label)) = Map.empty"
  by (simp_all add: register_encoder_eq)

lemma register_decoder_frame:
  "encoders (snd (register_decoder ext s lkp dec label)) = encoders s"
  "encoder_cache (snd (register_decoder ext s lkp dec label)) = encoder_cache s"
  "decoder_cache (snd (register_decoder ext s lkp dec label)) = Map.empty"
  by (simp_all add: register_decoder_eq)

lemma unregister_encoder_frame:
  "decoders (snd (unregister_encoder ext s lkp)) = decoders s"
  by (simp add: unregister_encoder_eq)

lemma register_cases:
  "register ext s lkp enc dec label =
     (if isl (fst (register_encoder ext s lkp enc label))
      then register_encoder ext s lkp enc label
      else register_decoder ext (snd (register_encoder ext s lkp enc label)) lkp dec label)"
  by (cases "register_encoder ext s lkp enc label"; cases "fst (register_encoder ext s lkp enc label)")
     (auto simp add: register_def)

lemma register_returned:
  assumes "fst (register ext s lkp enc dec label) = Inr ()"
  shows "fst (register_encoder ext s lkp enc label) = Inr ()"
    and "register ext s lkp enc dec label
           = register_decoder ext (snd (register_encoder ext s lkp enc label)) lkp dec label"
proof -
  have n: "\<not> isl (fst (register_encoder ext s lkp enc label))"
    using assms by (auto simp add: register_cases split: if_splits)
  then show "fst (register_encoder ext s lkp enc label) = Inr ()"
    by (cases "fst (register_encoder ext s lkp enc label)") simp_all
  from n show "register ext s lkp enc dec label
           = register_decoder ext (snd (register_encoder ext s lkp enc label)) lkp dec label"
    by (simp add: register_cases)
qed

lemma unregister_encoder_by_label:
  assumes "remove_by_label ext (encoders s1) S = (Inr (), m)"
  shows "fst (unregister_encoder ext s1 (Str S)) = Inr ()"
    and "encoders (snd (unregister_encoder ext s1 (Str S))) = m"
  using assms by (simp_all add: unregister_encoder_eq unregister_coder_str)

lemma unregister_decoder_by_label:
  assumes "remove_by_label ext (decoders s1) S = (Inr (), m)"
  shows "fst (unregister_decoder ext s1 (Str S)) = Inr ()"
    and "decoders (snd (unregister_decoder ext s1 (Str S))) = m"
  using assms by (simp_all add: unregister_decoder_eq unregister_coder_str)

lemma unregister_cases:
  "unregister ext s S =
     (if isl (fst (unregister_encoder ext s (Str S)))
      then unregister_encoder ext s (Str S)
      else unregister_decoder ext (snd (unregister_encoder ext s (Str S))) (Str S))"
  by (cases "unregister_encoder ext s (Str S)"; cases "fst (unregister_encoder ext s (Str S))")
     (auto simp add: unregister_def)

text \<open>
  C6, as the code has it. For every string \<open>S\<close>: a registration with the lookup \<open>S\<close> and
  no label that returns without raising (on the encoder side, on the decoder side, or on
  both through \<^verbatim>\<open>register\<close>) has appended an \<^verbatim>\<open>Equals(S)\<close> predicate with the coder and
  bound the label \<open>S\<close> to it, and a following \<^verbatim>\<open>unregister_encoder(S)\<close> or
  \<^verbatim>\<open>unregister_decoder(S)\<close> returns and leaves that side's mapping as it was before the
  registration. A registration that raises is not covered: \<^verbatim>\<open>add\<close> rejects a string whose
  \<^verbatim>\<open>Equals\<close> predicate or whose label is already present.
\<close>

theorem string_lookup_is_its_own_label:
  "(fst (register_encoder ext s (Str S) enc None) = Inr () \<longrightarrow>
      encoders (snd (register_encoder ext s (Str S) enc None)) =
        (encoders s)\<lparr>pm_values := pm_values (encoders s) @ [(Predicate (next_address s) (Equals S), enc)],
          pm_labeled_predicates :=
            pm_labeled_predicates (encoders s) @ [(S, Predicate (next_address s) (Equals S))]\<rparr> \<and>
      fst (unregister_encoder ext (snd (register_encoder ext s (Str S) enc None)) (Str S)) = Inr () \<and>
      encoders (snd (unregister_encoder ext (snd (register_encoder ext s (Str S) enc None)) (Str S)))
        = encoders s) \<and>
   (fst (register_decoder ext s (Str S) dec None) = Inr () \<longrightarrow>
      decoders (snd (register_decoder ext s (Str S) dec None)) =
        (decoders s)\<lparr>pm_values := pm_values (decoders s) @ [(Predicate (next_address s) (Equals S), dec)],
          pm_labeled_predicates :=
            pm_labeled_predicates (decoders s) @ [(S, Predicate (next_address s) (Equals S))]\<rparr> \<and>
      fst (unregister_decoder ext (snd (register_decoder ext s (Str S) dec None)) (Str S)) = Inr () \<and>
      decoders (snd (unregister_decoder ext (snd (register_decoder ext s (Str S) dec None)) (Str S)))
        = decoders s) \<and>
   (fst (register ext s (Str S) enc dec None) = Inr () \<longrightarrow>
      fst (unregister_encoder ext (snd (register ext s (Str S) enc dec None)) (Str S)) = Inr () \<and>
      encoders (snd (unregister_encoder ext (snd (register ext s (Str S) enc dec None)) (Str S)))
        = encoders s \<and>
      fst (unregister_decoder ext (snd (register ext s (Str S) enc dec None)) (Str S)) = Inr () \<and>
      decoders (snd (unregister_decoder ext (snd (register ext s (Str S) enc dec None)) (Str S)))
        = decoders s)"
proof (intro conjI impI)
  assume a: "fst (register_encoder ext s (Str S) enc None) = Inr ()"
  note r = register_encoder_str_returned[OF a]
  show "encoders (snd (register_encoder ext s (Str S) enc None)) =
        (encoders s)\<lparr>pm_values := pm_values (encoders s) @ [(Predicate (next_address s) (Equals S), enc)],
          pm_labeled_predicates :=
            pm_labeled_predicates (encoders s) @ [(S, Predicate (next_address s) (Equals S))]\<rparr>"
    by (rule r(1))
  show "fst (unregister_encoder ext (snd (register_encoder ext s (Str S) enc None)) (Str S)) = Inr ()"
    by (rule unregister_encoder_by_label(1)[OF r(2)])
  show "encoders (snd (unregister_encoder ext (snd (register_encoder ext s (Str S) enc None)) (Str S)))
        = encoders s"
    by (rule unregister_encoder_by_label(2)[OF r(2)])
next
  assume a: "fst (register_decoder ext s (Str S) dec None) = Inr ()"
  note r = register_decoder_str_returned[OF a]
  show "decoders (snd (register_decoder ext s (Str S) dec None)) =
        (decoders s)\<lparr>pm_values := pm_values (decoders s) @ [(Predicate (next_address s) (Equals S), dec)],
          pm_labeled_predicates :=
            pm_labeled_predicates (decoders s) @ [(S, Predicate (next_address s) (Equals S))]\<rparr>"
    by (rule r(1))
  show "fst (unregister_decoder ext (snd (register_decoder ext s (Str S) dec None)) (Str S)) = Inr ()"
    by (rule unregister_decoder_by_label(1)[OF r(2)])
  show "decoders (snd (unregister_decoder ext (snd (register_decoder ext s (Str S) dec None)) (Str S)))
        = decoders s"
    by (rule unregister_decoder_by_label(2)[OF r(2)])
next
  assume a: "fst (register ext s (Str S) enc dec None) = Inr ()"
  let ?s1 = "snd (register_encoder ext s (Str S) enc None)"
  let ?s2 = "snd (register ext s (Str S) enc dec None)"
  note j = register_returned[OF a]
  have d: "fst (register_decoder ext ?s1 (Str S) dec None) = Inr ()"
    using a j(2) by simp
  have e2: "encoders ?s2 = encoders ?s1"
    using j(2) by (simp add: register_decoder_frame)
  have d2: "decoders ?s2 = decoders (snd (register_decoder ext ?s1 (Str S) dec None))"
    using j(2) by simp
  have re: "remove_by_label ext (encoders ?s2) S = (Inr (), encoders s)"
    unfolding e2 by (rule register_encoder_str_returned(2)[OF j(1)])
  have rd: "remove_by_label ext (decoders ?s2) S = (Inr (), decoders s)"
    unfolding d2 using register_decoder_str_returned(2)[OF d] by (simp add: register_encoder_frame)
  show "fst (unregister_encoder ext ?s2 (Str S)) = Inr ()"
    by (rule unregister_encoder_by_label(1)[OF re])
  show "encoders (snd (unregister_encoder ext ?s2 (Str S))) = encoders s"
    by (rule unregister_encoder_by_label(2)[OF re])
  show "fst (unregister_decoder ext ?s2 (Str S)) = Inr ()"
    by (rule unregister_decoder_by_label(1)[OF rd])
  show "decoders (snd (unregister_decoder ext ?s2 (Str S))) = decoders s"
    by (rule unregister_decoder_by_label(2)[OF rd])
qed


lemma add_raised:
  assumes "fst (add ext m p val label) = Inl e"
  shows "snd (add ext m p val label) = m"
proof (cases "dict_contains py_eq (pm_values m) p")
  case True
  from add_duplicate_predicate[OF True, of ext val label] show ?thesis by auto
next
  case False
  show ?thesis
  proof (cases "label_taken m label")
    case True
    from add_duplicate_label[OF False True, of ext val] show ?thesis by auto
  next
    case nl: False
    from add_success[OF False nl, of ext val] assms show ?thesis by simp
  qed
qed

lemma register_coder_raised:
  assumes "fst (register_coder ext a m lkp cdr label) = Inl e"
  shows "snd (register_coder ext a m lkp cdr label) = m"
proof (cases lkp)
  case (Callable p)
  with assms show ?thesis by (simp add: register_coder_def add_raised)
next
  case (Str S)
  with assms show ?thesis by (simp add: register_coder_def add_raised)
next
  case (NotLookup r)
  then show ?thesis by (simp add: register_coder_def)
qed

lemma register_coder_returned:
  assumes "fst (register_coder ext a m lkp cdr label) = Inr ()"
  shows "\<exists>p. pm_values (snd (register_coder ext a m lkp cdr label)) = pm_values m @ [(p, cdr)]
             \<and> \<not> dict_contains py_eq (pm_values m) p"
proof -
  have ad: "\<exists>m1. add ext m p cdr l = (Inr (), m1)" if "fst (add ext m p cdr l) = Inr ()" for p l
    using that by (cases "add ext m p cdr l") simp
  show ?thesis
  proof (cases lkp)
    case (Callable p)
    with assms have "fst (add ext m p cdr label) = Inr ()" by (simp add: register_coder_def)
    from ad[OF this] obtain m1 where m1: "add ext m p cdr label = (Inr (), m1)" ..
    from add_returned(1,3)[OF m1] m1 Callable show ?thesis
      by (auto simp add: register_coder_def)
  next
    case (Str S)
    with assms have "fst (add ext m (Predicate a (Equals S)) cdr (Some S)) = Inr ()"
      by (simp add: register_coder_def)
    from ad[OF this] obtain m1 where m1: "add ext m (Predicate a (Equals S)) cdr (Some S) = (Inr (), m1)" ..
    from add_returned(1,3)[OF m1] m1 Str show ?thesis
      by (auto simp add: register_coder_def)
  next
    case (NotLookup r)
    with assms show ?thesis by (simp add: register_coder_def)
  qed
qed

text \<open>
  C7. For every registry: when, inside \<^verbatim>\<open>register\<close>, the encoder-side registration
  returns and the decoder-side registration raises, \<^verbatim>\<open>register\<close> raises that error,
  the encoder mapping keeps the entry the first step appended, and the decoder mapping
  is unchanged.
\<close>

theorem register_not_transactional:
  assumes "fst (register_encoder ext s lkp enc label) = Inr ()"
    and "fst (register_decoder ext (snd (register_encoder ext s lkp enc label)) lkp dec label) = Inl e"
  shows "fst (register ext s lkp enc dec label) = Inl e \<and>
         encoders (snd (register ext s lkp enc dec label))
           = encoders (snd (register_encoder ext s lkp enc label)) \<and>
         (\<exists>p. pm_values (encoders (snd (register ext s lkp enc dec label)))
                 = pm_values (encoders s) @ [(p, enc)]
               \<and> \<not> dict_contains py_eq (pm_values (encoders s)) p) \<and>
         decoders (snd (register ext s lkp enc dec label)) = decoders s"
proof -
  let ?s1 = "snd (register_encoder ext s lkp enc label)"
  have r: "register ext s lkp enc dec label = register_decoder ext ?s1 lkp dec label"
    using assms(1) by (simp add: register_cases)
  have f: "fst (register ext s lkp enc dec label) = Inl e"
    using r assms(2) by simp
  have e1: "encoders (snd (register ext s lkp enc dec label)) = encoders ?s1"
    using r by (simp add: register_decoder_frame)
  have rc: "fst (register_coder ext (next_address s) (encoders s) lkp enc label) = Inr ()"
    using assms(1) by (simp add: register_encoder_eq)
  have e2: "encoders ?s1 = snd (register_coder ext (next_address s) (encoders s) lkp enc label)"
    by (simp add: register_encoder_eq)
  have ex: "\<exists>p. pm_values (encoders (snd (register ext s lkp enc dec label)))
                 = pm_values (encoders s) @ [(p, enc)]
               \<and> \<not> dict_contains py_eq (pm_values (encoders s)) p"
    unfolding e1 e2 by (rule register_coder_returned[OF rc])
  have "fst (register_coder ext (next_address ?s1) (decoders ?s1) lkp dec label) = Inl e"
    using assms(2) by (simp add: register_decoder_eq)
  from register_coder_raised[OF this]
  have "decoders (snd (register_decoder ext ?s1 lkp dec label)) = decoders ?s1"
    by (simp add: register_decoder_eq)
  then have d: "decoders (snd (register ext s lkp enc dec label)) = decoders s"
    using r by (simp add: register_encoder_frame)
  from f e1 ex d show ?thesis by blast
qed


lemma sample_registry_fields:
  "encoders sample_registry = sample_mapping"
  "decoders sample_registry = sample_decoders"
  "next_address sample_registry = 100"
  by (simp_all add: sample_registry_def)

lemma sample_string_absent:
  "\<not> dict_contains py_eq (pm_values sample_mapping) (Predicate a (Equals ''string''))"
  "\<not> label_taken sample_mapping (Some ''string'')"
  "\<not> dict_contains py_eq (pm_values sample_decoders) (Predicate a (Equals ''string''))"
  "\<not> label_taken sample_decoders (Some ''string'')"
  by (simp_all add: dict_contains_def label_taken_def sample_mapping_def sample_decoders_def)

lemma sample_register_encoder_string:
  "fst (register_encoder sample_ext sample_registry (Str ''string'') cdr label) = Inr ()"
  by (simp add: register_encoder_eq register_coder_str sample_registry_fields
        add_success[OF sample_string_absent(1,2)])

lemma sample_register_decoder_string:
  "decoders s = sample_decoders \<Longrightarrow>
     fst (register_decoder sample_ext s (Str ''string'') cdr label) = Inr ()"
  by (simp add: register_decoder_eq register_coder_str add_success[OF sample_string_absent(3,4)])

theorem register_string_ignores_label_witness:
  "register_encoder sample_ext sample_registry (Str ''string'') (CoderCallable 60) (Some ''text'')
     = register_encoder sample_ext sample_registry (Str ''string'') (CoderCallable 60) None \<and>
   fst (register_encoder sample_ext sample_registry (Str ''string'') (CoderCallable 60) (Some ''text'')) = Inr () \<and>
   pm_labeled_predicates (encoders (snd (register_encoder sample_ext sample_registry (Str ''string'')
       (CoderCallable 60) (Some ''text''))))
     = pm_labeled_predicates sample_mapping @ [(''string'', Predicate 100 (Equals ''string''))] \<and>
   fst (register_decoder sample_ext sample_registry (Str ''string'') (CoderCallable 60) (Some ''text'')) = Inr () \<and>
   pm_labeled_predicates (decoders (snd (register_decoder sample_ext sample_registry (Str ''string'')
       (CoderCallable 60) (Some ''text''))))
     = pm_labeled_predicates sample_decoders @ [(''string'', Predicate 100 (Equals ''string''))]"
proof -
  note T = register_string_ignores_label[of sample_ext sample_registry "''string''" "CoderCallable 60"
      "Some ''text''"]
  have e: "fst (register_encoder sample_ext sample_registry (Str ''string'') (CoderCallable 60) (Some ''text'')) = Inr ()"
    by (rule sample_register_encoder_string)
  have d: "fst (register_decoder sample_ext sample_registry (Str ''string'') (CoderCallable 60) (Some ''text'')) = Inr ()"
    by (rule sample_register_decoder_string) (rule sample_registry_fields(2))
  from T[THEN conjunct2, THEN conjunct2, THEN conjunct1, THEN mp, OF e]
  have le: "pm_labeled_predicates (encoders (snd (register_encoder sample_ext sample_registry (Str ''string'')
       (CoderCallable 60) (Some ''text''))))
     = pm_labeled_predicates sample_mapping @ [(''string'', Predicate 100 (Equals ''string''))]"
    by (simp add: sample_registry_fields)
  from T[THEN conjunct2, THEN conjunct2, THEN conjunct2, THEN mp, OF d]
  have ld: "pm_labeled_predicates (decoders (snd (register_decoder sample_ext sample_registry (Str ''string'')
       (CoderCallable 60) (Some ''text''))))
     = pm_labeled_predicates sample_decoders @ [(''string'', Predicate 100 (Equals ''string''))]"
    by (simp add: sample_registry_fields)
  show ?thesis
    by (intro conjI) (rule T[THEN conjunct1], rule e, rule le, rule d, rule ld)
qed

theorem string_lookup_is_its_own_label_witness:
  "fst (register_encoder sample_ext sample_registry (Str ''string'') (CoderCallable 60) None) = Inr () \<and>
   fst (unregister_encoder sample_ext
          (snd (register_encoder sample_ext sample_registry (Str ''string'') (CoderCallable 60) None))
          (Str ''string'')) = Inr () \<and>
   encoders (snd (unregister_encoder sample_ext
          (snd (register_encoder sample_ext sample_registry (Str ''string'') (CoderCallable 60) None))
          (Str ''string''))) = sample_mapping \<and>
   fst (register_decoder sample_ext sample_registry (Str ''string'') (CoderCallable 61) None) = Inr () \<and>
   decoders (snd (unregister_decoder sample_ext
          (snd (register_decoder sample_ext sample_registry (Str ''string'') (CoderCallable 61) None))
          (Str ''string''))) = sample_decoders \<and>
   fst (register sample_ext sample_registry (Str ''string'') (CoderCallable 60) (CoderCallable 61) None) = Inr () \<and>
   encoders (snd (unregister_encoder sample_ext
          (snd (register sample_ext sample_registry (Str ''string'') (CoderCallable 60) (CoderCallable 61) None))
          (Str ''string''))) = sample_mapping \<and>
   decoders (snd (unregister_decoder sample_ext
          (snd (register sample_ext sample_registry (Str ''string'') (CoderCallable 60) (CoderCallable 61) None))
          (Str ''string''))) = sample_decoders"
proof -
  note T = string_lookup_is_its_own_label[of sample_ext sample_registry "''string''" "CoderCallable 60"
      "CoderCallable 61"]
  have e: "fst (register_encoder sample_ext sample_registry (Str ''string'') (CoderCallable 60) None) = Inr ()"
    by (rule sample_register_encoder_string)
  have d: "fst (register_decoder sample_ext sample_registry (Str ''string'') (CoderCallable 61) None) = Inr ()"
    by (rule sample_register_decoder_string) (rule sample_registry_fields(2))
  have "fst (register_decoder sample_ext
               (snd (register_encoder sample_ext sample_registry (Str ''string'') (CoderCallable 60) None))
               (Str ''string'') (CoderCallable 61) None) = Inr ()"
    by (rule sample_register_decoder_string) (simp add: register_encoder_frame sample_registry_fields)
  then have j: "fst (register sample_ext sample_registry (Str ''string'') (CoderCallable 60) (CoderCallable 61) None)
                  = Inr ()"
    using e by (simp add: register_cases)
  note E = T[THEN conjunct1, THEN mp, OF e]
  note D = T[THEN conjunct2, THEN conjunct1, THEN mp, OF d]
  note J = T[THEN conjunct2, THEN conjunct2, THEN mp, OF j]
  show ?thesis
    using e d j E[THEN conjunct2] D[THEN conjunct2, THEN conjunct2] J[THEN conjunct2, THEN conjunct1]
      J[THEN conjunct2, THEN conjunct2, THEN conjunct2]
    by (simp add: sample_registry_fields)
qed


lemma sample_uint_label_bound:
  "\<not> dict_contains py_eq (pm_values sample_mapping) (Predicate a (Equals ''uint''))"
  "label_taken sample_mapping (Some ''uint'')"
  by (simp_all add: dict_contains_def label_taken_def sample_mapping_def)

lemma sample_register_uint_raises:
  "\<exists>err. register_encoder sample_ext sample_registry (Str ''uint'') (CoderCallable 60) None =
     (Inl err, sample_registry\<lparr>encoder_cache := Map.empty, next_address := 101\<rparr>)"
proof -
  from add_duplicate_label[where ext = sample_ext and val = "CoderCallable 60",
      OF sample_uint_label_bound(1)[of 100] sample_uint_label_bound(2)]
  obtain err where "add sample_ext sample_mapping (Predicate 100 (Equals ''uint'')) (CoderCallable 60)
                      (Some ''uint'') = (Inl err, sample_mapping)" ..
  then have "register_encoder sample_ext sample_registry (Str ''uint'') (CoderCallable 60) None =
     (Inl err, sample_registry\<lparr>encoder_cache := Map.empty, next_address := 101\<rparr>)"
    by (simp add: register_encoder_eq register_coder_str sample_registry_fields sample_registry_def)
  then show ?thesis ..
qed

lemma sample_remove_label_uint:
  "remove_by_label sample_ext sample_mapping ''uint'' =
     (Inr (),
      \<lparr>pm_name = ''encoder registry'',
       pm_values =
         [(Predicate 2 (Equals ''uint256''), CoderCallable 11),
          (Predicate 3 (BaseEquals ''bool'' None), CoderCallable 12),
          (Predicate 5 (BaseEquals ''bytes'' (Some True)), CoderClass 14)],
       pm_labeled_predicates =
         [(''uint256'', Predicate 2 (Equals ''uint256'')),
          (''bytes<M>'', Predicate 5 (BaseEquals ''bytes'' (Some True)))]\<rparr>)"
  by (simp add: remove_by_label_def Let_def sample_mapping_def dict_del_def dict_contains_def)

text \<open>
  C6, as stated for every string, fails. On the sample registry the label \<^verbatim>\<open>'uint'\<close> is
  bound to a \<^verbatim>\<open>BaseEquals('uint')\<close> predicate. \<^verbatim>\<open>register_encoder('uint', coder)\<close> raises
  (the label exists) and stores no \<^verbatim>\<open>Equals('uint')\<close> predicate; the following
  \<^verbatim>\<open>unregister_encoder('uint')\<close> returns and removes the \<^verbatim>\<open>BaseEquals('uint')\<close> entry,
  another registration.
\<close>

theorem string_registration_roundtrip_counterexample:
  "isl (fst (register_encoder sample_ext sample_registry (Str ''uint'') (CoderCallable 60) None)) \<and>
   encoders (snd (register_encoder sample_ext sample_registry (Str ''uint'') (CoderCallable 60) None))
     = sample_mapping \<and>
   \<not> dict_contains py_eq (pm_values sample_mapping) (Predicate 100 (Equals ''uint'')) \<and>
   fst (unregister_encoder sample_ext
          (snd (register_encoder sample_ext sample_registry (Str ''uint'') (CoderCallable 60) None))
          (Str ''uint'')) = Inr () \<and>
   encoders (snd (unregister_encoder sample_ext
          (snd (register_encoder sample_ext sample_registry (Str ''uint'') (CoderCallable 60) None))
          (Str ''uint''))) =
      \<lparr>pm_name = ''encoder registry'',
       pm_values =
         [(Predicate 2 (Equals ''uint256''), CoderCallable 11),
          (Predicate 3 (BaseEquals ''bool'' None), CoderCallable 12),
          (Predicate 5 (BaseEquals ''bytes'' (Some True)), CoderClass 14)],
       pm_labeled_predicates =
         [(''uint256'', Predicate 2 (Equals ''uint256'')),
          (''bytes<M>'', Predicate 5 (BaseEquals ''bytes'' (Some True)))]\<rparr>"
proof -
  from sample_register_uint_raises obtain err where
    r: "register_encoder sample_ext sample_registry (Str ''uint'') (CoderCallable 60) None =
          (Inl err, sample_registry\<lparr>encoder_cache := Map.empty, next_address := 101\<rparr>)" ..
  have e: "encoders (sample_registry\<lparr>encoder_cache := Map.empty, next_address := 101\<rparr>) = sample_mapping"
    by (simp add: sample_registry_fields)
  have 1: "isl (fst (register_encoder sample_ext sample_registry (Str ''uint'') (CoderCallable 60) None))"
    by (simp add: r)
  have 2: "encoders (snd (register_encoder sample_ext sample_registry (Str ''uint'') (CoderCallable 60) None))
             = sample_mapping"
    by (simp add: r sample_registry_fields)
  have rl: "remove_by_label sample_ext
              (encoders (snd (register_encoder sample_ext sample_registry (Str ''uint'') (CoderCallable 60) None)))
              ''uint'' =
     (Inr (),
      \<lparr>pm_name = ''encoder registry'',
       pm_values =
         [(Predicate 2 (Equals ''uint256''), CoderCallable 11),
          (Predicate 3 (BaseEquals ''bool'' None), CoderCallable 12),
          (Predicate 5 (BaseEquals ''bytes'' (Some True)), CoderClass 14)],
       pm_labeled_predicates =
         [(''uint256'', Predicate 2 (Equals ''uint256'')),
          (''bytes<M>'', Predicate 5 (BaseEquals ''bytes'' (Some True)))]\<rparr>)"
    unfolding 2 by (rule sample_remove_label_uint)
  show ?thesis
    by (intro conjI)
       (rule 1, rule 2, rule sample_uint_label_bound(1),
        rule unregister_encoder_by_label(1)[OF rl], rule unregister_encoder_by_label(2)[OF rl])
qed

theorem register_not_transactional_witness:
  "fst (register_encoder sample_ext sample_registry (Callable (Predicate 50 (BaseEquals ''address'' None)))
          (CoderCallable 60) None) = Inr () \<and>
   isl (fst (register_decoder sample_ext
          (snd (register_encoder sample_ext sample_registry (Callable (Predicate 50 (BaseEquals ''address'' None)))
             (CoderCallable 60) None))
          (Callable (Predicate 50 (BaseEquals ''address'' None))) (CoderCallable 61) None)) \<and>
   isl (fst (register sample_ext sample_registry (Callable (Predicate 50 (BaseEquals ''address'' None)))
          (CoderCallable 60) (CoderCallable 61) None)) \<and>
   pm_values (encoders (snd (register sample_ext sample_registry
          (Callable (Predicate 50 (BaseEquals ''address'' None))) (CoderCallable 60) (CoderCallable 61) None)))
     = pm_values sample_mapping @ [(Predicate 50 (BaseEquals ''address'' None), CoderCallable 60)] \<and>
   decoders (snd (register sample_ext sample_registry
          (Callable (Predicate 50 (BaseEquals ''address'' None))) (CoderCallable 60) (CoderCallable 61) None))
     = sample_decoders"
proof -
  let ?p = "Predicate 50 (BaseEquals ''address'' None)"
  let ?s1 = "snd (register_encoder sample_ext sample_registry (Callable ?p) (CoderCallable 60) None)"
  have na: "\<not> dict_contains py_eq (pm_values sample_mapping) ?p"
    by (simp add: dict_contains_def sample_mapping_def)
  have nl: "\<not> label_taken sample_mapping None"
    by (simp add: label_taken_def)
  have dup: "dict_contains py_eq (pm_values sample_decoders) ?p"
    by (simp add: dict_contains_def sample_decoders_def)
  have rc: "register_coder sample_ext 100 sample_mapping (Callable ?p) (CoderCallable 60) None
              = (Inr (), sample_mapping\<lparr>pm_values := pm_values sample_mapping @ [(?p, CoderCallable 60)],
                   pm_labeled_predicates := with_label (pm_labeled_predicates sample_mapping) None ?p\<rparr>)"
    using add_success[OF na nl, of sample_ext "CoderCallable 60"] by (simp add: register_coder_def)
  have e: "fst (register_encoder sample_ext sample_registry (Callable ?p) (CoderCallable 60) None) = Inr ()"
    by (simp add: register_encoder_eq sample_registry_fields rc)
  have v: "pm_values (encoders ?s1) = pm_values sample_mapping @ [(?p, CoderCallable 60)]"
    by (simp add: register_encoder_eq sample_registry_fields rc)
  have d1: "decoders ?s1 = sample_decoders"
    by (simp add: register_encoder_frame sample_registry_fields)
  from add_duplicate_predicate[OF dup, of sample_ext "CoderCallable 61" None]
  obtain err where ad: "add sample_ext sample_decoders ?p (CoderCallable 61) None = (Inl err, sample_decoders)" ..
  have d: "fst (register_decoder sample_ext ?s1 (Callable ?p) (CoderCallable 61) None) = Inl err"
    by (simp add: register_decoder_eq d1 register_coder_def ad)
  note T = register_not_transactional[OF e d]
  have 1: "isl (fst (register_decoder sample_ext ?s1 (Callable ?p) (CoderCallable 61) None))"
    using d by simp
  have 2: "isl (fst (register sample_ext sample_registry (Callable ?p) (CoderCallable 60) (CoderCallable 61) None))"
    using T[THEN conjunct1] by simp
  have 3: "pm_values (encoders (snd (register sample_ext sample_registry (Callable ?p)
               (CoderCallable 60) (CoderCallable 61) None)))
             = pm_values sample_mapping @ [(?p, CoderCallable 60)]"
    using T[THEN conjunct2, THEN conjunct1] v by simp
  have 4: "decoders (snd (register sample_ext sample_registry (Callable ?p)
               (CoderCallable 60) (CoderCallable 61) None)) = sample_decoders"
    using T[THEN conjunct2, THEN conjunct2, THEN conjunct2] by (simp add: sample_registry_fields)
  show ?thesis
    by (intro conjI) (rule e, rule 1, rule 2, rule 3, rule 4)
qed

subsection \<open>The resolution cache\<close>

lemma get_encoder_hit: "encoder_cache s T = Some v \<Longrightarrow> get_encoder ext f s T = (Inr v, s)"
  by (simp add: get_encoder_def)

lemma get_encoder_miss:
  "encoder_cache s T = None \<Longrightarrow>
     get_encoder ext f s T =
       (case get_coder ext f s (encoders s) T of
          (Inl e, s1) \<Rightarrow> (Inl e, s1)
        | (Inr v, s1) \<Rightarrow> (Inr v, s1\<lparr>encoder_cache := (encoder_cache s1)(T \<mapsto> v)\<rparr>))"
  by (simp add: get_encoder_def)

lemma get_encoder_returned_cached:
  assumes "get_encoder ext f s T = (Inr v, s1)"
  shows "encoder_cache s1 T = Some v"
proof (cases "encoder_cache s T")
  case None
  obtain r s' where g: "get_coder ext f s (encoders s) T = (r, s')"
    by (cases "get_coder ext f s (encoders s) T")
  show ?thesis
  proof (cases r)
    case (Inl e)
    with assms None g show ?thesis by (simp add: get_encoder_miss)
  next
    case (Inr w)
    with assms None g show ?thesis by (auto simp add: get_encoder_miss)
  qed
next
  case (Some w)
  with assms show ?thesis by (simp add: get_encoder_hit)
qed

text \<open>
  C5. For every registry and type string: when \<^verbatim>\<open>get_encoder(T)\<close> returns a value, a
  second \<^verbatim>\<open>get_encoder(T)\<close> on the registry the first call left returns the same value
  (the same object: the same address) and leaves the registry as it found it, the record
  of collaborator calls included; this holds whatever the parser and the coder classes
  would do, so the second call evaluates no predicate, parses nothing and constructs
  nothing.
\<close>

theorem get_encoder_idempotent:
  assumes "get_encoder ext from_type_str s T = (Inr v, s1)"
  shows "get_encoder ext' from_type_str' s1 T = (Inr v, s1)"
  by (rule get_encoder_hit) (rule get_encoder_returned_cached[OF assms])

lemma sample_find_bytes32: "find_pm sample_ext sample_mapping ''bytes32'' = Inr (CoderClass 14)"
  by (simp add: find_pm_def sample_mapping_def BaseEquals_call_def sample_ext_def sample_parse_def)

lemma sample_get_coder_bytes32:
  "get_coder sample_ext sample_from_type_str s sample_mapping ''bytes32'' =
     (Inr (CoderCallable (next_address s)),
      s\<lparr>calls := calls s @ map (\<lambda>item. PredicateCalled (fst item) ''bytes32'') (pm_values sample_mapping)
                   @ [FromTypeStr (CoderClass 14) ''bytes32''],
        next_address := Suc (next_address s)\<rparr>)"
  by (simp add: get_coder_def sample_find_bytes32 sample_from_type_str_def)


lemma sample_registry_caches:
  "encoder_cache sample_registry = Map.empty" "calls sample_registry = []"
  by (simp_all add: sample_registry_def)

lemma sample_cached_eq:
  "get_encoder sample_ext sample_from_type_str sample_registry ''bytes32''
     = (Inr (CoderCallable 100), sample_cached)"
proof -
  have "fst (get_encoder sample_ext sample_from_type_str sample_registry ''bytes32'') = Inr (CoderCallable 100)"
    by (simp add: get_encoder_miss sample_registry_caches
          sample_get_coder_bytes32 sample_registry_fields)
  then show ?thesis
    unfolding sample_cached_def
    by (cases "get_encoder sample_ext sample_from_type_str sample_registry ''bytes32''") simp
qed

lemma sample_cached_fields:
  "encoders sample_cached = sample_mapping"
  "decoders sample_cached = sample_decoders"
  "next_address sample_cached = 101"
  "encoder_cache sample_cached ''bytes32'' = Some (CoderCallable 100)"
  "calls sample_cached =
     [PredicateCalled (Predicate 1 (BaseEquals ''uint'' None)) ''bytes32'',
      PredicateCalled (Predicate 2 (Equals ''uint256'')) ''bytes32'',
      PredicateCalled (Predicate 3 (BaseEquals ''bool'' None)) ''bytes32'',
      PredicateCalled (Predicate 5 (BaseEquals ''bytes'' (Some True))) ''bytes32'',
      FromTypeStr (CoderClass 14) ''bytes32'']"
  unfolding sample_cached_def
  by (simp_all add: get_encoder_miss sample_registry_caches
        sample_get_coder_bytes32 sample_registry_fields)
     (simp_all add: sample_mapping_def)

theorem get_encoder_idempotent_witness:
  "get_encoder sample_ext sample_from_type_str sample_registry ''bytes32''
     = (Inr (CoderCallable 100), sample_cached) \<and>
   get_encoder sample_ext sample_from_type_str sample_cached ''bytes32''
     = (Inr (CoderCallable 100), sample_cached) \<and>
   calls sample_registry = [] \<and>
   calls sample_cached =
     [PredicateCalled (Predicate 1 (BaseEquals ''uint'' None)) ''bytes32'',
      PredicateCalled (Predicate 2 (Equals ''uint256'')) ''bytes32'',
      PredicateCalled (Predicate 3 (BaseEquals ''bool'' None)) ''bytes32'',
      PredicateCalled (Predicate 5 (BaseEquals ''bytes'' (Some True))) ''bytes32'',
      FromTypeStr (CoderClass 14) ''bytes32'']"
  by (intro conjI)
     (rule sample_cached_eq,
      rule get_encoder_idempotent[OF sample_cached_eq],
      rule sample_registry_caches(2),
      rule sample_cached_fields(5))


subsection \<open>Registration and the cache\<close>

lemma get_decoder_miss:
  "decoder_cache s T = None \<Longrightarrow>
     get_decoder ext f s T =
       (case get_coder ext f s (decoders s) T of
          (Inl e, s1) \<Rightarrow> (Inl e, s1)
        | (Inr v, s1) \<Rightarrow> (Inr v, s1\<lparr>decoder_cache := (decoder_cache s1)(T \<mapsto> v)\<rparr>))"
  by (simp add: get_decoder_def)

lemma register_encoder_raised:
  assumes "fst (register_encoder ext s lkp enc label) = Inl e"
  shows "encoders (snd (register_encoder ext s lkp enc label)) = encoders s"
proof -
  from assms have "fst (register_coder ext (next_address s) (encoders s) lkp enc label) = Inl e"
    by (simp add: register_encoder_eq)
  from register_coder_raised[OF this] show ?thesis by (simp add: register_encoder_eq)
qed

lemma register_decoder_raised:
  assumes "fst (register_decoder ext s lkp dec label) = Inl e"
  shows "decoders (snd (register_decoder ext s lkp dec label)) = decoders s"
proof -
  from assms have "fst (register_coder ext (next_address s) (decoders s) lkp dec label) = Inl e"
    by (simp add: register_decoder_eq)
  from register_coder_raised[OF this] show ?thesis by (simp add: register_decoder_eq)
qed

text \<open>
  C3, as the code has it. Every \<^verbatim>\<open>register_encoder\<close> and \<^verbatim>\<open>register_decoder\<close> call leaves
  the cache of its side empty, whether the underlying \<^verbatim>\<open>add\<close> raises or returns: the
  decorator clears the cache before the method runs. A call that raises leaves both
  mappings and the cache of the other side unchanged. A following \<^verbatim>\<open>get_encoder\<close> or
  \<^verbatim>\<open>get_decoder\<close> therefore resolves its argument again through \<^verbatim>\<open>_get_coder\<close>.
\<close>

theorem registration_clears_cache_first:
  "encoder_cache (snd (register_encoder ext s lkp cdr label)) = Map.empty \<and>
   decoder_cache (snd (register_decoder ext s lkp cdr label)) = Map.empty \<and>
   (\<forall>e. fst (register_encoder ext s lkp cdr label) = Inl e \<longrightarrow>
      encoders (snd (register_encoder ext s lkp cdr label)) = encoders s \<and>
      decoders (snd (register_encoder ext s lkp cdr label)) = decoders s \<and>
      decoder_cache (snd (register_encoder ext s lkp cdr label)) = decoder_cache s) \<and>
   (\<forall>e. fst (register_decoder ext s lkp cdr label) = Inl e \<longrightarrow>
      decoders (snd (register_decoder ext s lkp cdr label)) = decoders s \<and>
      encoders (snd (register_decoder ext s lkp cdr label)) = encoders s \<and>
      encoder_cache (snd (register_decoder ext s lkp cdr label)) = encoder_cache s) \<and>
   get_encoder ext f (snd (register_encoder ext s lkp cdr label)) T =
     (case get_coder ext f (snd (register_encoder ext s lkp cdr label))
             (encoders (snd (register_encoder ext s lkp cdr label))) T of
        (Inl e, s1) \<Rightarrow> (Inl e, s1)
      | (Inr v, s1) \<Rightarrow> (Inr v, s1\<lparr>encoder_cache := (encoder_cache s1)(T \<mapsto> v)\<rparr>)) \<and>
   get_decoder ext f (snd (register_decoder ext s lkp cdr label)) T =
     (case get_coder ext f (snd (register_decoder ext s lkp cdr label))
             (decoders (snd (register_decoder ext s lkp cdr label))) T of
        (Inl e, s1) \<Rightarrow> (Inl e, s1)
      | (Inr v, s1) \<Rightarrow> (Inr v, s1\<lparr>decoder_cache := (decoder_cache s1)(T \<mapsto> v)\<rparr>))"
proof (intro conjI allI impI)
  show ce: "encoder_cache (snd (register_encoder ext s lkp cdr label)) = Map.empty"
    by (rule register_encoder_frame(3))
  show cd: "decoder_cache (snd (register_decoder ext s lkp cdr label)) = Map.empty"
    by (rule register_decoder_frame(3))
  show "get_encoder ext f (snd (register_encoder ext s lkp cdr label)) T =
     (case get_coder ext f (snd (register_encoder ext s lkp cdr label))
             (encoders (snd (register_encoder ext s lkp cdr label))) T of
        (Inl e, s1) \<Rightarrow> (Inl e, s1)
      | (Inr v, s1) \<Rightarrow> (Inr v, s1\<lparr>encoder_cache := (encoder_cache s1)(T \<mapsto> v)\<rparr>))"
    by (rule get_encoder_miss) (simp add: ce)
  show "get_decoder ext f (snd (register_decoder ext s lkp cdr label)) T =
     (case get_coder ext f (snd (register_decoder ext s lkp cdr label))
             (decoders (snd (register_decoder ext s lkp cdr label))) T of
        (Inl e, s1) \<Rightarrow> (Inl e, s1)
      | (Inr v, s1) \<Rightarrow> (Inr v, s1\<lparr>decoder_cache := (decoder_cache s1)(T \<mapsto> v)\<rparr>))"
    by (rule get_decoder_miss) (simp add: cd)
next
  fix e assume "fst (register_encoder ext s lkp cdr label) = Inl e"
  then show "encoders (snd (register_encoder ext s lkp cdr label)) = encoders s"
    by (rule register_encoder_raised)
next
  fix e assume "fst (register_decoder ext s lkp cdr label) = Inl e"
  then show "decoders (snd (register_decoder ext s lkp cdr label)) = decoders s"
    by (rule register_decoder_raised)
qed (simp_all add: register_encoder_frame register_decoder_frame)


lemma sample_failed_registration:
  "isl (fst (register_encoder sample_ext sample_cached
               (Callable (Predicate 50 (BaseEquals ''uint'' None))) (CoderCallable 60) None))"
proof -
  have dup: "dict_contains py_eq (pm_values sample_mapping) (Predicate 50 (BaseEquals ''uint'' None))"
    by (simp add: dict_contains_def sample_mapping_def)
  from add_duplicate_predicate[OF dup, of sample_ext "CoderCallable 60" None]
  obtain err where "add sample_ext sample_mapping (Predicate 50 (BaseEquals ''uint'' None))
                      (CoderCallable 60) None = (Inl err, sample_mapping)" ..
  then show ?thesis
    by (simp add: register_encoder_eq register_coder_def sample_cached_fields)
qed

lemma sample_after_failed_fields:
  "encoders sample_after_failed_registration = sample_mapping"
  "encoder_cache sample_after_failed_registration = Map.empty"
  "next_address sample_after_failed_registration = 101"
proof -
  from sample_failed_registration obtain err where
    e: "fst (register_encoder sample_ext sample_cached
               (Callable (Predicate 50 (BaseEquals ''uint'' None))) (CoderCallable 60) None) = Inl err"
    by (auto simp add: isl_def)
  show "encoders sample_after_failed_registration = sample_mapping"
    unfolding sample_after_failed_registration_def
    using register_encoder_raised[OF e] by (simp add: sample_cached_fields)
  show "encoder_cache sample_after_failed_registration = Map.empty"
    unfolding sample_after_failed_registration_def by (rule register_encoder_frame(3))
  show "next_address sample_after_failed_registration = 101"
    unfolding sample_after_failed_registration_def
    by (simp add: register_encoder_eq sample_cached_fields)
qed

lemma sample_after_failed_get_encoder:
  "fst (get_encoder sample_ext sample_from_type_str sample_after_failed_registration ''bytes32'')
     = Inr (CoderCallable 101)"
  by (simp add: get_encoder_miss sample_after_failed_fields sample_get_coder_bytes32)

text \<open>
  C3, as stated, fails. The sample registry has cached the coder instance at address 100
  for \<^verbatim>\<open>'bytes32'\<close>. Registering a second \<^verbatim>\<open>BaseEquals('uint')\<close> raises (duplicate
  predicate), and the cache is empty afterwards: \<^verbatim>\<open>get_encoder('bytes32')\<close> resolves again
  and returns a new instance, at address 101.
\<close>

theorem failed_registration_clears_cache_counterexample:
  "encoder_cache sample_cached ''bytes32'' = Some (CoderCallable 100) \<and>
   isl (fst (register_encoder sample_ext sample_cached
               (Callable (Predicate 50 (BaseEquals ''uint'' None))) (CoderCallable 60) None)) \<and>
   encoder_cache sample_after_failed_registration ''bytes32'' = None \<and>
   fst (get_encoder sample_ext sample_from_type_str sample_after_failed_registration ''bytes32'')
     = Inr (CoderCallable 101) \<and>
   get_encoder sample_ext sample_from_type_str sample_after_failed_registration ''bytes32''
     \<noteq> (Inr (CoderCallable 100), sample_after_failed_registration)"
proof -
  have c: "encoder_cache sample_after_failed_registration ''bytes32'' = None"
    by (simp add: sample_after_failed_fields)
  have n: "get_encoder sample_ext sample_from_type_str sample_after_failed_registration ''bytes32''
     \<noteq> (Inr (CoderCallable 100), sample_after_failed_registration)"
    using sample_after_failed_get_encoder by auto
  show ?thesis
    by (intro conjI)
       (rule sample_cached_fields(4), rule sample_failed_registration, rule c,
        rule sample_after_failed_get_encoder, rule n)
qed

theorem registration_clears_cache_first_witness:
  "isl (fst (register_encoder sample_ext sample_cached
               (Callable (Predicate 50 (BaseEquals ''uint'' None))) (CoderCallable 60) None)) \<and>
   encoder_cache sample_after_failed_registration = Map.empty \<and>
   encoders sample_after_failed_registration = sample_mapping \<and>
   decoders sample_after_failed_registration = sample_decoders \<and>
   get_encoder sample_ext sample_from_type_str sample_after_failed_registration ''bytes32'' =
     (case get_coder sample_ext sample_from_type_str sample_after_failed_registration sample_mapping ''bytes32'' of
        (Inl e, s1) \<Rightarrow> (Inl e, s1)
      | (Inr v, s1) \<Rightarrow> (Inr v, s1\<lparr>encoder_cache := (encoder_cache s1)(''bytes32'' \<mapsto> v)\<rparr>))"
proof -
  note T = registration_clears_cache_first[of sample_ext sample_cached
      "Callable (Predicate 50 (BaseEquals ''uint'' None))" "CoderCallable 60" None
      sample_from_type_str "''bytes32''"]
  from sample_failed_registration obtain err where
    e: "fst (register_encoder sample_ext sample_cached
               (Callable (Predicate 50 (BaseEquals ''uint'' None))) (CoderCallable 60) None) = Inl err"
    by (auto simp add: isl_def)
  note F = T[THEN conjunct2, THEN conjunct2, THEN conjunct1, THEN spec, THEN mp, OF e]
  have 1: "encoder_cache sample_after_failed_registration = Map.empty"
    unfolding sample_after_failed_registration_def by (rule T[THEN conjunct1])
  have 2: "encoders sample_after_failed_registration = sample_mapping"
    unfolding sample_after_failed_registration_def using F[THEN conjunct1]
    by (simp add: sample_cached_fields)
  have 3: "decoders sample_after_failed_registration = sample_decoders"
    unfolding sample_after_failed_registration_def using F[THEN conjunct2, THEN conjunct1]
    by (simp add: sample_cached_fields)
  have 4: "get_encoder sample_ext sample_from_type_str sample_after_failed_registration ''bytes32'' =
     (case get_coder sample_ext sample_from_type_str sample_after_failed_registration sample_mapping ''bytes32'' of
        (Inl e, s1) \<Rightarrow> (Inl e, s1)
      | (Inr v, s1) \<Rightarrow> (Inr v, s1\<lparr>encoder_cache := (encoder_cache s1)(''bytes32'' \<mapsto> v)\<rparr>))"
    using T[THEN conjunct2, THEN conjunct2, THEN conjunct2, THEN conjunct2, THEN conjunct1]
    unfolding sample_after_failed_registration_def[symmetric] 2 .
  show ?thesis
    by (intro conjI) (rule sample_failed_registration, rule 1, rule 2, rule 3, rule 4)
qed


subsection \<open>The diagnostic re-parse in \<^verbatim>\<open>_get_coder\<close>\<close>

lemma no_match_message_marked: "sublist ''No matching'' (no_match_message T nm)"
proof -
  have "no_match_message T nm = ''No matching'' @ ('' entries for '' @ [CHR 0x27] @ T @ [CHR 0x27] @ '' in '' @ nm)"
    by (simp add: no_match_message_def)
  then show ?thesis by (simp only: sublist_append_rightI)
qed

lemma multiple_match_message_quotes: "sublist T (multiple_match_message ext T nm ps)"
proof -
  have "multiple_match_message ext T nm ps =
          (''Multiple matching entries for '' @ [CHR 0x27]) @ T @
          ([CHR 0x27] @ '' in '' @ nm @ '': '' @ join '', '' (map (repr_predicate ext) ps))"
    by (simp add: multiple_match_message_def)
  then show ?thesis by (simp only: sublist_appendI)
qed

lemma get_coder_value_error:
  assumes "find_pm ext m T = Inl (ValueError msg)" and "sublist ''No matching'' msg"
  shows "get_coder ext f s m T =
           ((case parse ext T of None \<Rightarrow> Inl (ParseError T) | Some t \<Rightarrow> Inl (ValueError msg)),
            s\<lparr>calls := calls s @ map (\<lambda>item. PredicateCalled (fst item) T) (pm_values m)
                         @ [GrammarParse T]\<rparr>)"
  using assms by (simp add: get_coder_def Let_def split: option.split)

lemma get_coder_value_error_unmarked:
  assumes "find_pm ext m T = Inl (ValueError msg)" and "\<not> sublist ''No matching'' msg"
  shows "get_coder ext f s m T =
           (Inl (ValueError msg),
            s\<lparr>calls := calls s @ map (\<lambda>item. PredicateCalled (fst item) T) (pm_values m)\<rparr>)"
  using assms by (simp add: get_coder_def Let_def)

lemma no_match_is_reparsed:
  assumes "find_pm ext m T = Inl (ValueError (no_match_message T (pm_name m)))"
  shows "fst (get_coder ext f s m T) =
           (case parse ext T of
              None \<Rightarrow> Inl (ParseError T)
            | Some t \<Rightarrow> Inl (ValueError (no_match_message T (pm_name m))))"
  by (simp add: get_coder_value_error[OF assms no_match_message_marked])

lemma ambiguous_match_reparsed_when_marked:
  assumes "2 \<le> length (matching ext m T)" and "sublist ''No matching'' T"
  shows "get_coder ext f s m T =
           ((case parse ext T of
               None \<Rightarrow> Inl (ParseError T)
             | Some t \<Rightarrow> Inl (ValueError (multiple_match_message ext T (pm_name m) (matching ext m T)))),
            s\<lparr>calls := calls s @ map (\<lambda>item. PredicateCalled (fst item) T) (pm_values m)
                         @ [GrammarParse T]\<rparr>)"
proof -
  have "sublist ''No matching'' (multiple_match_message ext T (pm_name m) (matching ext m T))"
    using assms(2) multiple_match_message_quotes sublist_order.order_trans by blast
  from get_coder_value_error[OF find_pm_many[OF assms(1)] this] show ?thesis .
qed


lemma sample_overlapping_fields:
  "encoders sample_overlapping =
     \<lparr>pm_name = ''encoder registry'',
      pm_values =
        [(Predicate 1 (PyFunction ''<function accept_any at 0x1>'' (\<lambda>s. True)), CoderCallable 10),
         (Predicate 2 (PyFunction ''<function fallback at 0x2>'' (\<lambda>s. True)), CoderCallable 11)],
      pm_labeled_predicates = []\<rparr>"
  "encoder_cache sample_overlapping = Map.empty"
  "calls sample_overlapping = []"
  by (simp_all add: sample_overlapping_def ABIRegistry_init_def)

lemma sample_overlapping_matching:
  "matching sample_ext (encoders sample_overlapping) ''No matching'' =
     [Predicate 1 (PyFunction ''<function accept_any at 0x1>'' (\<lambda>s. True)),
      Predicate 2 (PyFunction ''<function fallback at 0x2>'' (\<lambda>s. True))]"
  by (simp add: matching_def sample_overlapping_fields)

text \<open>
  C2. \<^verbatim>\<open>_get_coder\<close> tells a no-match error from a multiple-match error by looking for
  the text \<^verbatim>\<open>No matching\<close> in the message, and the message of a multiple-match error
  quotes the type string. With two registered callables that accept the type string
  \<^verbatim>\<open>'No matching'\<close>, \<^verbatim>\<open>find\<close> raises the multiple-match error, the registry parses the
  type string all the same, and the parser's error replaces the multiple-match error.
\<close>

theorem ambiguous_match_is_reparsed:
  "find_pm sample_ext (encoders sample_overlapping) ''No matching'' =
     Inl (ValueError (multiple_match_message sample_ext ''No matching'' ''encoder registry''
            [Predicate 1 (PyFunction ''<function accept_any at 0x1>'' (\<lambda>s. True)),
             Predicate 2 (PyFunction ''<function fallback at 0x2>'' (\<lambda>s. True))])) \<and>
   parse sample_ext ''No matching'' = None \<and>
   fst (get_encoder sample_ext sample_from_type_str sample_overlapping ''No matching'')
     = Inl (ParseError ''No matching'') \<and>
   calls (snd (get_encoder sample_ext sample_from_type_str sample_overlapping ''No matching'')) =
     [PredicateCalled (Predicate 1 (PyFunction ''<function accept_any at 0x1>'' (\<lambda>s. True))) ''No matching'',
      PredicateCalled (Predicate 2 (PyFunction ''<function fallback at 0x2>'' (\<lambda>s. True))) ''No matching'',
      GrammarParse ''No matching'']"
proof -
  have two: "2 \<le> length (matching sample_ext (encoders sample_overlapping) ''No matching'')"
    by (simp add: sample_overlapping_matching)
  have nm: "pm_name (encoders sample_overlapping) = ''encoder registry''"
    by (simp add: sample_overlapping_fields)
  have p: "parse sample_ext ''No matching'' = None"
    by (simp add: sample_ext_def sample_parse_def)
  have f: "find_pm sample_ext (encoders sample_overlapping) ''No matching'' =
     Inl (ValueError (multiple_match_message sample_ext ''No matching'' ''encoder registry''
            [Predicate 1 (PyFunction ''<function accept_any at 0x1>'' (\<lambda>s. True)),
             Predicate 2 (PyFunction ''<function fallback at 0x2>'' (\<lambda>s. True))]))"
    using find_pm_many[OF two] unfolding sample_overlapping_matching nm .
  note g = ambiguous_match_reparsed_when_marked[OF two sublist_order.order_refl,
      of sample_from_type_str sample_overlapping]
  have ge: "get_encoder sample_ext sample_from_type_str sample_overlapping ''No matching'' =
              (Inl (ParseError ''No matching''),
               sample_overlapping\<lparr>calls := calls sample_overlapping
                 @ map (\<lambda>item. PredicateCalled (fst item) ''No matching'')
                     (pm_values (encoders sample_overlapping))
                 @ [GrammarParse ''No matching'']\<rparr>)"
    by (simp add: get_encoder_miss sample_overlapping_fields(2) g p)
  have 3: "fst (get_encoder sample_ext sample_from_type_str sample_overlapping ''No matching'')
     = Inl (ParseError ''No matching'')"
    by (simp add: ge)
  have 4: "calls (snd (get_encoder sample_ext sample_from_type_str sample_overlapping ''No matching'')) =
     [PredicateCalled (Predicate 1 (PyFunction ''<function accept_any at 0x1>'' (\<lambda>s. True))) ''No matching'',
      PredicateCalled (Predicate 2 (PyFunction ''<function fallback at 0x2>'' (\<lambda>s. True))) ''No matching'',
      GrammarParse ''No matching'']"
    by (simp add: ge sample_overlapping_fields)
  show ?thesis by (intro conjI) (rule f, rule p, rule 3, rule 4)
qed

subsection \<open>\<^verbatim>\<open>PredicateMapping.remove_by_equality\<close>\<close>

lemma remove_by_equality_unlabelled_object:
  assumes "dict_contains py_eq (pm_values m) p" and "label_scan (pm_labeled_predicates m) p = None"
  shows "remove_by_equality ext m p = (Inr (), m\<lparr>pm_values := dict_del py_eq (pm_values m) p\<rparr>)"
proof -
  let ?m1 = "m\<lparr>pm_values := dict_del py_eq (pm_values m) p\<rparr>"
  have "\<exists>msg. label_for_predicate ext ?m1 p = Inl (ValueError msg)"
    unfolding label_for_predicate_def using assms(2) by simp
  then obtain msg where "label_for_predicate ext ?m1 p = Inl (ValueError msg)" ..
  then show ?thesis
    unfolding remove_by_equality_def Let_def using assms(1) by simp
qed

text \<open>
  C4. \<^verbatim>\<open>_label_for_predicate\<close> compares with \<^verbatim>\<open>is\<close>. Removing by a \<^verbatim>\<open>BaseEquals('uint')\<close>
  object that is equal to the stored one but is another object (address 50, the stored
  one is at address 1) deletes the entry of the primary index and returns, and the label
  \<^verbatim>\<open>'uint'\<close> stays bound to the predicate that is no longer a key. Removing by the stored
  object itself deletes the label too.
\<close>

theorem remove_by_equality_leaves_label:
  "remove_by_equality sample_ext sample_mapping (Predicate 50 (BaseEquals ''uint'' None)) =
     (Inr (),
      \<lparr>pm_name = ''encoder registry'',
       pm_values =
         [(Predicate 2 (Equals ''uint256''), CoderCallable 11),
          (Predicate 3 (BaseEquals ''bool'' None), CoderCallable 12),
          (Predicate 5 (BaseEquals ''bytes'' (Some True)), CoderClass 14)],
       pm_labeled_predicates =
         [(''uint'', Predicate 1 (BaseEquals ''uint'' None)),
          (''uint256'', Predicate 2 (Equals ''uint256'')),
          (''bytes<M>'', Predicate 5 (BaseEquals ''bytes'' (Some True)))]\<rparr>) \<and>
   remove_by_equality sample_ext sample_mapping (Predicate 1 (BaseEquals ''uint'' None)) =
     (Inr (),
      \<lparr>pm_name = ''encoder registry'',
       pm_values =
         [(Predicate 2 (Equals ''uint256''), CoderCallable 11),
          (Predicate 3 (BaseEquals ''bool'' None), CoderCallable 12),
          (Predicate 5 (BaseEquals ''bytes'' (Some True)), CoderClass 14)],
       pm_labeled_predicates =
         [(''uint256'', Predicate 2 (Equals ''uint256'')),
          (''bytes<M>'', Predicate 5 (BaseEquals ''bytes'' (Some True)))]\<rparr>)"
proof -
  have c: "dict_contains py_eq (pm_values sample_mapping) (Predicate a (BaseEquals ''uint'' None))" for a
    by (simp add: dict_contains_def sample_mapping_def)
  have d: "dict_del py_eq (pm_values sample_mapping) (Predicate a (BaseEquals ''uint'' None)) =
         [(Predicate 2 (Equals ''uint256''), CoderCallable 11),
          (Predicate 3 (BaseEquals ''bool'' None), CoderCallable 12),
          (Predicate 5 (BaseEquals ''bytes'' (Some True)), CoderClass 14)]" for a
    by (simp add: dict_del_def sample_mapping_def)
  have l50: "label_scan (pm_labeled_predicates sample_mapping) (Predicate 50 (BaseEquals ''uint'' None)) = None"
    by (simp add: sample_mapping_def py_is_def)
  have l1: "label_scan (pm_labeled_predicates sample_mapping) (Predicate 1 (BaseEquals ''uint'' None))
              = Some ''uint''"
    by (simp add: sample_mapping_def py_is_def)
  have dl: "dict_del (=) (pm_labeled_predicates sample_mapping) ''uint'' =
         [(''uint256'', Predicate 2 (Equals ''uint256'')),
          (''bytes<M>'', Predicate 5 (BaseEquals ''bytes'' (Some True)))]"
    by (simp add: dict_del_def sample_mapping_def)
  have nm: "pm_name sample_mapping = ''encoder registry''"
    and lp: "pm_labeled_predicates sample_mapping =
         [(''uint'', Predicate 1 (BaseEquals ''uint'' None)),
          (''uint256'', Predicate 2 (Equals ''uint256'')),
          (''bytes<M>'', Predicate 5 (BaseEquals ''bytes'' (Some True)))]"
    by (simp_all add: sample_mapping_def)
  have a: "remove_by_equality sample_ext sample_mapping (Predicate 50 (BaseEquals ''uint'' None)) =
     (Inr (), sample_mapping\<lparr>pm_values :=
         [(Predicate 2 (Equals ''uint256''), CoderCallable 11),
          (Predicate 3 (BaseEquals ''bool'' None), CoderCallable 12),
          (Predicate 5 (BaseEquals ''bytes'' (Some True)), CoderClass 14)]\<rparr>)"
  proof -
    let ?m1 = "sample_mapping\<lparr>pm_values := dict_del py_eq (pm_values sample_mapping)
                 (Predicate 50 (BaseEquals ''uint'' None))\<rparr>"
    have "\<exists>msg. label_for_predicate sample_ext ?m1 (Predicate 50 (BaseEquals ''uint'' None))
                  = Inl (ValueError msg)"
      unfolding label_for_predicate_def using l50 by simp
    then obtain msg where "label_for_predicate sample_ext ?m1 (Predicate 50 (BaseEquals ''uint'' None))
                  = Inl (ValueError msg)" ..
    then show ?thesis
      unfolding remove_by_equality_def Let_def using c[of 50] d[of 50] by simp
  qed
  have b: "remove_by_equality sample_ext sample_mapping (Predicate 1 (BaseEquals ''uint'' None)) =
     (Inr (), sample_mapping\<lparr>pm_values :=
         [(Predicate 2 (Equals ''uint256''), CoderCallable 11),
          (Predicate 3 (BaseEquals ''bool'' None), CoderCallable 12),
          (Predicate 5 (BaseEquals ''bytes'' (Some True)), CoderClass 14)],
        pm_labeled_predicates :=
         [(''uint256'', Predicate 2 (Equals ''uint256'')),
          (''bytes<M>'', Predicate 5 (BaseEquals ''bytes'' (Some True)))]\<rparr>)"
  proof -
    let ?m1 = "sample_mapping\<lparr>pm_values := dict_del py_eq (pm_values sample_mapping)
                 (Predicate 1 (BaseEquals ''uint'' None))\<rparr>"
    have "label_for_predicate sample_ext ?m1 (Predicate 1 (BaseEquals ''uint'' None)) = Inr ''uint''"
      unfolding label_for_predicate_def using l1 by simp
    then show ?thesis
      unfolding remove_by_equality_def Let_def using c[of 1] d[of 1] dl by simp
  qed
  have ra: "sample_mapping\<lparr>pm_values :=
         [(Predicate 2 (Equals ''uint256''), CoderCallable 11),
          (Predicate 3 (BaseEquals ''bool'' None), CoderCallable 12),
          (Predicate 5 (BaseEquals ''bytes'' (Some True)), CoderClass 14)]\<rparr> =
      \<lparr>pm_name = ''encoder registry'',
       pm_values =
         [(Predicate 2 (Equals ''uint256''), CoderCallable 11),
          (Predicate 3 (BaseEquals ''bool'' None), CoderCallable 12),
          (Predicate 5 (BaseEquals ''bytes'' (Some True)), CoderClass 14)],
       pm_labeled_predicates =
         [(''uint'', Predicate 1 (BaseEquals ''uint'' None)),
          (''uint256'', Predicate 2 (Equals ''uint256'')),
          (''bytes<M>'', Predicate 5 (BaseEquals ''bytes'' (Some True)))]\<rparr>"
    by (simp add: sample_mapping_def)
  have rb: "sample_mapping\<lparr>pm_values :=
         [(Predicate 2 (Equals ''uint256''), CoderCallable 11),
          (Predicate 3 (BaseEquals ''bool'' None), CoderCallable 12),
          (Predicate 5 (BaseEquals ''bytes'' (Some True)), CoderClass 14)],
        pm_labeled_predicates :=
         [(''uint256'', Predicate 2 (Equals ''uint256'')),
          (''bytes<M>'', Predicate 5 (BaseEquals ''bytes'' (Some True)))]\<rparr> =
      \<lparr>pm_name = ''encoder registry'',
       pm_values =
         [(Predicate 2 (Equals ''uint256''), CoderCallable 11),
          (Predicate 3 (BaseEquals ''bool'' None), CoderCallable 12),
          (Predicate 5 (BaseEquals ''bytes'' (Some True)), CoderClass 14)],
       pm_labeled_predicates =
         [(''uint256'', Predicate 2 (Equals ''uint256'')),
          (''bytes<M>'', Predicate 5 (BaseEquals ''bytes'' (Some True)))]\<rparr>"
    by (simp add: sample_mapping_def)
  show ?thesis
    by (intro conjI) (rule a[unfolded ra], rule b[unfolded rb])
qed

end
